theory Spec2Isabelle
  imports Complex_Main
begin

section \<open>Supermaple: the physics registry, the frame scheduler and the seeded RNG cache\<close>

text \<open>
  A shallow embedding of \<^verbatim>\<open>src/App.tsx\<close> (class \<^verbatim>\<open>Physics\<close> and the
  \<^verbatim>\<open>onAnimationFrame\<close> game loop) and of the utilities module (\<^verbatim>\<open>assert\<close>,
  \<^verbatim>\<open>random\<close>, \<^verbatim>\<open>random_cache\<close>).

  Conventions of the embedding:
  \<^item> A JavaScript \<^verbatim>\<open>number\<close> is a real number that stands for a finite double. The
    operations the scheduler uses, \<^verbatim>\<open>-\<close> and \<^verbatim>\<open>/\<close>, round their exact result to
    the nearest double, ties to even, as IEEE 754 binary64 does (\<open>round_double\<close>,
    subnormal numbers included). NaN and the infinities are not represented: a
    division by zero and a result that overflows are outside the model, and the
    statements about the scheduler say which states they cover.
  \<^item> Objects that are shared by reference (the \<^verbatim>\<open>Box\<close> objects, the generators
    held by \<^verbatim>\<open>random_cache\<close>) live in an explicit store; a reference is an address.
  \<^item> A \<^verbatim>\<open>throw\<close> is a value: a function that can throw returns
    \<open>(error + 'a) \<times> state\<close>, the state being the one reached when the exception
    leaves the function (JavaScript does not roll effects back).
  \<^item> The DOM work of the game loop (\<^verbatim>\<open>requestAnimationFrame\<close>, the style
    updates of the box divs) is presentation and is left out; it never writes the
    physics state. Every registered box is taken to have its entry in
    \<^verbatim>\<open>boxDivsRef\<close>, which the effect that fills the registry creates.
\<close>

subsection \<open>Values, errors and the object store\<close>

type_synonym number = real
type_synonym ref = nat

datatype error =
    Error string   \<comment> \<open>\<^verbatim>\<open>new Error(message)\<close>\<close>
  | TypeError      \<comment> \<open>calling or dereferencing \<^verbatim>\<open>undefined\<close>\<close>

record 'a store =
  cells :: "ref \<rightharpoonup> 'a"
  fresh :: ref

definition empty_store :: "'a store" where
  "empty_store = \<lparr>cells = Map.empty, fresh = 0\<rparr>"

text \<open>Creating an object: it gets the next address, which is never handed out again.\<close>

definition alloc :: "'a \<Rightarrow> 'a store \<Rightarrow> ref \<times> 'a store" where
  "alloc v s = (fresh s, s\<lparr>cells := (cells s)(fresh s \<mapsto> v), fresh := Suc (fresh s)\<rparr>)"

subsection \<open>Double-precision arithmetic\<close>

text \<open>
  Rounding a real to the nearest integer, ties to the even one.
\<close>

definition rne :: "real \<Rightarrow> int" where
  "rne y =
     (let f = \<lfloor>y\<rfloor>; d = y - of_int f
      in if d < 1 / 2 then f else if 1 / 2 < d then f + 1 else if even f then f else f + 1)"

text \<open>
  The binary exponent of a nonzero number as a double has it: \<open>\<lfloor>log\<^sub>2 \<bar>x\<bar>\<rfloor>\<close>, and
  \<open>-1022\<close> for the subnormal numbers. A double has 53 significant bits, so the doubles
  with exponent \<open>e\<close> are the multiples of \<open>2\<^sup>e\<^sup>-\<^sup>5\<^sup>2\<close>.
\<close>

definition expo :: "real \<Rightarrow> int" where
  "expo x = max \<lfloor>log 2 \<bar>x\<bar>\<rfloor> (- 1022)"

definition round_mag :: "real \<Rightarrow> real" where
  "round_mag a = of_int (rne (a / 2 powi (expo a - 52))) * 2 powi (expo a - 52)"

text \<open>
  The double nearest to a real number (round to nearest, ties to even): the rounding
  every arithmetic operation of JavaScript applies to its exact result. A result of
  magnitude \<open>2\<^sup>1\<^sup>0\<^sup>2\<^sup>4 - 2\<^sup>9\<^sup>7\<^sup>0\<close> or more is an infinity in JavaScript; \<open>finite_double\<close>
  says that the exact result stays below.
\<close>

definition round_double :: "real \<Rightarrow> real" where
  "round_double x = (if x = 0 then 0 else sgn x * round_mag \<bar>x\<bar>)"

definition finite_double :: "real \<Rightarrow> bool" where
  "finite_double x = (\<bar>x\<bar> < 2 ^ 1024 - 2 ^ 970)"

text \<open>The operators \<^verbatim>\<open>a - b\<close> and \<^verbatim>\<open>a / b\<close> on numbers.\<close>

definition js_sub :: "number \<Rightarrow> number \<Rightarrow> number" where
  "js_sub a b = round_double (a - b)"

definition js_div :: "number \<Rightarrow> number \<Rightarrow> number" where
  "js_div a b = round_double (a / b)"

subsection \<open>The utilities module\<close>

text \<open>\<^verbatim>\<open>Array.prototype.join\<close> on an array of strings.\<close>

fun join :: "string list \<Rightarrow> string \<Rightarrow> string" where
  "join [] sep = ''''"
| "join [a] sep = a"
| "join (a # b # bs) sep = a @ sep @ join (b # bs) sep"

text \<open>
  \<^verbatim>\<open>function assert(...args) { const [condition, ...data] = args
    if (!condition) throw new Error(`Assertion failed${data && data.length ? `: ${data.join(' ')}` : ''}`) }\<close>
\<close>

definition assert :: "bool \<Rightarrow> string list \<Rightarrow> error + unit" where
  "assert condition data =
     (if \<not> condition
      then Inl (Error (''Assertion failed'' @ (if data \<noteq> [] then '': '' @ join data '' '' else '''')))
      else Inr ())"

text \<open>
  The \<^verbatim>\<open>seedrandom\<close> package and the conversion of a number to a string are not code
  of this repository; they are parameters of the model. \<open>'g\<close> is the internal state
  of a generator object, \<open>seedrandom\<close> builds a generator from a seed (\<open>None\<close> is
  \<^verbatim>\<open>undefined\<close>), \<open>call_prng\<close> is one call \<^verbatim>\<open>prng()\<close>: the number drawn and the
  generator's next state. \<open>number_to_string\<close> is the template literal
  \<^verbatim>\<open>`${n}`\<close>.
\<close>

record 'g lib =
  seedrandom :: "string option \<Rightarrow> 'g"
  call_prng :: "'g \<Rightarrow> number \<times> 'g"
  number_to_string :: "number \<Rightarrow> string"

subsection \<open>Boxes and the \<^verbatim>\<open>Physics\<close> instance\<close>

datatype BoxKind = solid | sensor | platform

text \<open>
  \<^verbatim>\<open>type Box = { id: string; x: number; y: number; w: number; h: number; kind: BoxKind }\<close>.
  The fields carry the prefix \<open>box_\<close> (\<open>id\<close> is a constant of HOL, and one-letter
  constants would capture the variables of every statement).
\<close>

record Box =
  box_id :: string
  box_x :: number
  box_y :: number
  box_w :: number
  box_h :: number
  box_kind :: BoxKind

text \<open>\<^verbatim>\<open>Partial<Box>\<close>: every field may be absent (\<^verbatim>\<open>undefined\<close>).\<close>

record PartialBox =
  arg_id :: "string option"
  arg_x :: "number option"
  arg_y :: "number option"
  arg_w :: "number option"
  arg_h :: "number option"
  arg_kind :: "BoxKind option"

text \<open>
  \<^verbatim>\<open>class Physics { private constructor(public stepMs = 1000 / 60, public startTime = Date.now(),
    public lastTime = Date.now(), public boxes: { [id: string]: Box } = {}) {} }\<close>.
  The registry \<open>boxes\<close> holds references to the box objects.
\<close>

record Physics =
  stepMs :: number
  startTime :: number
  lastTime :: number
  boxes :: "string \<rightharpoonup> ref"

text \<open>
  The state of the process: the one \<^verbatim>\<open>Physics\<close> instance of the session, the box
  objects, the generator objects and the module-level \<^verbatim>\<open>random_cache\<close>
  (\<^verbatim>\<open>new Map<string | undefined, PRNG>()\<close>).
\<close>

record 'g world =
  physics :: Physics
  box_store :: "Box store"
  prng_store :: "'g store"
  random_cache :: "string option \<rightharpoonup> ref"

text \<open>
  \<^verbatim>\<open>new Physics()\<close> with the two samples of \<^verbatim>\<open>Date.now()\<close> the constructor takes, in a
  process that has not called \<^verbatim>\<open>random\<close> yet.
\<close>

definition create :: "number \<Rightarrow> number \<Rightarrow> 'g world" where
  "create now1 now2 =
     \<lparr>physics = \<lparr>stepMs = js_div 1000 60, startTime = now1, lastTime = now2, boxes = Map.empty\<rparr>,
      box_store = empty_store, prng_store = empty_store, random_cache = Map.empty\<rparr>"

subsection \<open>\<^verbatim>\<open>random\<close>\<close>

text \<open>
  \<^verbatim>\<open>function random(seed?: string) {
    if (!random_cache.has(seed)) random_cache.set(seed, seedrandom(seed))
    return random_cache.get(seed)!()
  }\<close>
\<close>

definition random :: "'g lib \<Rightarrow> string option \<Rightarrow> 'g world \<Rightarrow> (error + number) \<times> 'g world" where
  "random L seed w =
     (let w1 = (if random_cache w seed = None
                then (let (r, ps) = alloc (seedrandom L seed) (prng_store w)
                      in w\<lparr>prng_store := ps, random_cache := (random_cache w)(seed \<mapsto> r)\<rparr>)
                else w)
      in case random_cache w1 seed of
           None \<Rightarrow> (Inl TypeError, w1)
         | Some r \<Rightarrow>
             (case cells (prng_store w1) r of
                None \<Rightarrow> (Inl TypeError, w1)
              | Some g \<Rightarrow>
                  (let (v, g') = call_prng L g
                   in (Inr v, w1\<lparr>prng_store := (prng_store w1)\<lparr>cells := (cells (prng_store w1))(r \<mapsto> g')\<rparr>\<rparr>))))"

subsection \<open>\<^verbatim>\<open>Physics.add\<close> and \<^verbatim>\<open>Physics.step\<close>\<close>

text \<open>
  The registry is an object literal \<^verbatim>\<open>{}\<close>, so the operator \<^verbatim>\<open>in\<close> also finds the
  properties it inherits from \<^verbatim>\<open>Object.prototype\<close>.
\<close>

definition object_prototype_keys :: "string list" where
  "object_prototype_keys =
     [''constructor'', ''__defineGetter__'', ''__defineSetter__'', ''hasOwnProperty'',
      ''__lookupGetter__'', ''__lookupSetter__'', ''isPrototypeOf'', ''propertyIsEnumerable'',
      ''toString'', ''valueOf'', ''__proto__'', ''toLocaleString'']"

definition js_in :: "string \<Rightarrow> (string \<rightharpoonup> 'a) \<Rightarrow> bool" where
  "js_in k obj = (k \<in> dom obj \<or> k \<in> set object_prototype_keys)"

text \<open>A destructuring default: \<^verbatim>\<open>{ x = 0 }\<close> takes the default when the field is absent.\<close>

definition default_to :: "'a \<Rightarrow> 'a option \<Rightarrow> 'a" where
  "default_to d v = (case v of None \<Rightarrow> d | Some a \<Rightarrow> a)"

text \<open>
  The default of \<^verbatim>\<open>id\<close> is \<^verbatim>\<open>`${random()}`\<close>; it is evaluated (and draws from the
  unseeded generator) only when the field is absent.
\<close>

definition resolve_id :: "'g lib \<Rightarrow> string option \<Rightarrow> 'g world \<Rightarrow> (error + string) \<times> 'g world" where
  "resolve_id L i w =
     (case i of
        Some s \<Rightarrow> (Inr s, w)
      | None \<Rightarrow>
          (case random L None w of
             (Inl e, w1) \<Rightarrow> (Inl e, w1)
           | (Inr v, w1) \<Rightarrow> (Inr (number_to_string L v), w1)))"

text \<open>
  \<^verbatim>\<open>add({ id = `${random()}`, x = 0, y = 0, w = 1, h = 1, kind = 'solid' }: Partial<Box>) {
    assert(!(id in this.boxes), `Box@${id} already exists`)
    const box: Box = { id, x, y, w, h, kind }
    this.boxes[id] = box
    return box
  }\<close>
\<close>

definition add :: "'g lib \<Rightarrow> PartialBox \<Rightarrow> 'g world \<Rightarrow> (error + ref) \<times> 'g world" where
  "add L a w0 =
     (case resolve_id L (arg_id a) w0 of
        (Inl e, w) \<Rightarrow> (Inl e, w)
      | (Inr i, w) \<Rightarrow>
          (let x = default_to 0 (arg_x a);
               y = default_to 0 (arg_y a);
               bw = default_to 1 (arg_w a);
               bh = default_to 1 (arg_h a);
               k = default_to solid (arg_kind a)
           in case assert (\<not> js_in i (boxes (physics w))) [''Box@'' @ i @ '' already exists''] of
                Inl e \<Rightarrow> (Inl e, w)
              | Inr _ \<Rightarrow>
                  (let box = \<lparr>box_id = i, box_x = x, box_y = y, box_w = bw, box_h = bh, box_kind = k\<rparr>;
                       (r, bs) = alloc box (box_store w)
                   in (Inr r, w\<lparr>box_store := bs,
                                physics := (physics w)\<lparr>boxes := (boxes (physics w))(i \<mapsto> r)\<rparr>\<rparr>))))"

text \<open>
  \<^verbatim>\<open>step(onCollision?: (box1: Box, box2: Box) => void) {}\<close>: the body is empty. The
  callback receives two box references and may change whatever state \<open>'o\<close> it has
  captured; \<open>step\<close> takes that state and returns it.
\<close>

definition step :: "(ref \<Rightarrow> ref \<Rightarrow> 'o \<Rightarrow> 'o) option \<Rightarrow> 'g world \<times> 'o \<Rightarrow> 'g world \<times> 'o" where
  "step onCollision s = s"

subsection \<open>The frame scheduler\<close>

text \<open>\<^verbatim>\<open>a ?? b\<close>: \<open>b\<close> when \<open>a\<close> is \<^verbatim>\<open>null\<close> or \<^verbatim>\<open>undefined\<close>.\<close>

definition nullish_coalesce :: "'a option \<Rightarrow> 'a \<Rightarrow> 'a" where
  "nullish_coalesce a b = (case a of None \<Rightarrow> b | Some v \<Rightarrow> v)"

text \<open>
  \<^verbatim>\<open>for (let f = 0; f < fastForwardFrames; f++) { const frame = pastFrames + f
    physics.step((box1, box2) => {}) ... }\<close>.
  The loop is instrumented with the list of the values of \<^verbatim>\<open>frame\<close> at which
  \<^verbatim>\<open>physics.step\<close> was called, in the order of the calls.
\<close>

function frames_loop :: "int \<Rightarrow> int \<Rightarrow> int \<Rightarrow> 'g world \<times> int list \<Rightarrow> 'g world \<times> int list" where
  "frames_loop pastFrames fastForwardFrames f (w, executed) =
     (if f < fastForwardFrames
      then (let frame = pastFrames + f;
                (w', u) = step (Some (\<lambda>box1 box2 u. u)) (w, ())
            in frames_loop pastFrames fastForwardFrames (f + 1) (w', executed @ [frame]))
      else (w, executed))"
  by pat_completeness auto
termination
  by (relation "measure (\<lambda>(pastFrames, fastForwardFrames, f, s). nat (fastForwardFrames - f))") auto

text \<open>
  \<^verbatim>\<open>const onAnimationFrame = (time: number) => {
    physics.startTime = physics.startTime ?? time
    physics.lastTime = physics.lastTime ?? time
    const { startTime, lastTime } = physics
    const pastFrames = floor((lastTime - startTime) / stepMs)
    const allFrames = floor((time - startTime) / stepMs)
    const fastForwardFrames = allFrames - pastFrames
    if (fastForwardFrames) physics.lastTime = time
    for (...) {...}
  }\<close>.
  \<^verbatim>\<open>startTime\<close> and \<^verbatim>\<open>lastTime\<close> are numbers from the constructor on, so the
  left operand of each \<^verbatim>\<open>??\<close> is defined. \<^verbatim>\<open>stepMs\<close> is read from the instance
  when the loop is installed (\<^verbatim>\<open>const { stepMs } = physics\<close>); no code assigns it
  afterwards, so it is the instance's \<open>stepMs\<close> at every tick. \<^verbatim>\<open>Math.floor\<close> of a
  finite double is exact. The frame numbers are integers: while the quotients stay
  below \<open>2\<^sup>5\<^sup>2\<close> in magnitude (\<open>tick_in_range\<close> below), their difference, the loop
  counter and \<^verbatim>\<open>pastFrames + f\<close> are computed exactly by the doubles. The result is
  the state after the tick and the frames stepped in it.
\<close>

definition onAnimationFrame :: "number \<Rightarrow> 'g world \<Rightarrow> 'g world \<times> int list" where
  "onAnimationFrame time w0 =
     (let w1 = w0\<lparr>physics := (physics w0)\<lparr>startTime := nullish_coalesce (Some (startTime (physics w0))) time\<rparr>\<rparr>;
          w2 = w1\<lparr>physics := (physics w1)\<lparr>lastTime := nullish_coalesce (Some (lastTime (physics w1))) time\<rparr>\<rparr>;
          pastFrames = \<lfloor>js_div (js_sub (lastTime (physics w2)) (startTime (physics w2))) (stepMs (physics w2))\<rfloor>;
          allFrames = \<lfloor>js_div (js_sub time (startTime (physics w2))) (stepMs (physics w2))\<rfloor>;
          fastForwardFrames = allFrames - pastFrames;
          w3 = (if fastForwardFrames \<noteq> 0 then w2\<lparr>physics := (physics w2)\<lparr>lastTime := time\<rparr>\<rparr> else w2)
      in frames_loop pastFrames fastForwardFrames 0 (w3, []))"

subsection \<open>Reading and writing a box through a reference\<close>

text \<open>
  The game loop and the view read a box through the registry (\<^verbatim>\<open>boxes[id]\<close>); the
  caller of \<^verbatim>\<open>add\<close> holds the returned reference. A field assignment
  \<^verbatim>\<open>b.x = v\<close> through a reference \<^verbatim>\<open>b\<close> rewrites the one object at that address;
  \<open>upd\<close> is the change of the fields.
\<close>

definition deref :: "ref \<Rightarrow> 'g world \<Rightarrow> Box option" where
  "deref r w = cells (box_store w) r"

definition registry_get :: "string \<Rightarrow> 'g world \<Rightarrow> Box option" where
  "registry_get i w = (case boxes (physics w) i of None \<Rightarrow> None | Some r \<Rightarrow> deref r w)"

definition assign :: "ref \<Rightarrow> (Box \<Rightarrow> Box) \<Rightarrow> 'g world \<Rightarrow> 'g world" where
  "assign r upd w =
     (case cells (box_store w) r of
        None \<Rightarrow> w
      | Some b \<Rightarrow> w\<lparr>box_store := (box_store w)\<lparr>cells := (cells (box_store w))(r \<mapsto> upd b)\<rparr>\<rparr>)"

definition registry_assign :: "string \<Rightarrow> (Box \<Rightarrow> Box) \<Rightarrow> 'g world \<Rightarrow> 'g world" where
  "registry_assign i upd w = (case boxes (physics w) i of None \<Rightarrow> w | Some r \<Rightarrow> assign r upd w)"

subsection \<open>Notions of the specification\<close>

text \<open>
  The invariant of the generator cache: every cached reference points to a generator
  that was allocated, no two seeds hold the same reference, and the addresses in use
  lie below the next one to be handed out.
\<close>

definition cache_wf :: "'g world \<Rightarrow> bool" where
  "cache_wf w =
     ((\<forall>seed r. random_cache w seed = Some r \<longrightarrow>
          r < fresh (prng_store w) \<and> cells (prng_store w) r \<noteq> None)
      \<and> (\<forall>s1 s2 r. random_cache w s1 = Some r \<and> random_cache w s2 = Some r \<longrightarrow> s1 = s2)
      \<and> (\<forall>r. cells (prng_store w) r \<noteq> None \<longrightarrow> r < fresh (prng_store w)))"

text \<open>
  The ticks the model covers: \<open>stepMs\<close> is not zero, neither subtraction overflows,
  and both quotients are below \<open>2\<^sup>5\<^sup>2\<close> in magnitude, so that every frame number of
  the tick is an integer the doubles represent exactly.
\<close>

definition tick_in_range :: "number \<Rightarrow> 'g world \<Rightarrow> bool" where
  "tick_in_range time w =
     (stepMs (physics w) \<noteq> 0
      \<and> finite_double (lastTime (physics w) - startTime (physics w))
      \<and> finite_double (time - startTime (physics w))
      \<and> \<bar>js_sub (lastTime (physics w)) (startTime (physics w)) / stepMs (physics w)\<bar> < 2 ^ 52
      \<and> \<bar>js_sub time (startTime (physics w)) / stepMs (physics w)\<bar> < 2 ^ 52)"

text \<open>
  The overlap test in the words of the specification (section 4.4, narrow phase): the
  rectangles \<open>[x, x + w) \<times> [y, y + h)\<close> of the two boxes meet. The code has no such
  test; the definition is only used to say what the specification expects of
  \<open>step\<close>.
\<close>

definition spec_overlap :: "Box \<Rightarrow> Box \<Rightarrow> bool" where
  "spec_overlap a b =
     (box_x a < box_x b + box_w b \<and> box_x b < box_x a + box_w a
      \<and> box_y a < box_y b + box_h b \<and> box_y b < box_y a + box_h a)"

text \<open>A callback that records each pair it is called with, in the order of the calls.\<close>

definition log_collision :: "ref \<Rightarrow> ref \<Rightarrow> (ref \<times> ref) list \<Rightarrow> (ref \<times> ref) list" where
  "log_collision box1 box2 calls = calls @ [(box1, box2)]"

subsection \<open>Example states\<close>

text \<open>A session whose clock has the given step, start and last time, with no box yet.\<close>

definition clock_world :: "number \<Rightarrow> number \<Rightarrow> number \<Rightarrow> unit world" where
  "clock_world ms t0 t1 =
     \<lparr>physics = \<lparr>stepMs = ms, startTime = t0, lastTime = t1, boxes = Map.empty\<rparr>,
      box_store = empty_store, prng_store = empty_store, random_cache = Map.empty\<rparr>"

text \<open>The number the literal \<^verbatim>\<open>49.99\<close> denotes: the double nearest to it.\<close>

definition sample_49_99 :: number where
  "sample_49_99 = round_double 49.99"

text \<open>
  An instance of the library parameters for the examples: a generator is a counter
  \<open>n\<close> that draws \<open>1 / (2 + n)\<close>; the unseeded generator starts at \<open>0\<close>, a seeded one
  at the length of its seed plus one.
\<close>

definition example_lib :: "nat lib" where
  "example_lib =
     \<lparr>seedrandom = (\<lambda>seed. case seed of None \<Rightarrow> 0 | Some s \<Rightarrow> Suc (length s)),
      call_prng = (\<lambda>n. (1 / (2 + real n), Suc n)),
      number_to_string = (\<lambda>v. if v = 1 / 2 then ''0.5'' else ''0.3333333333333333'')\<rparr>"

text \<open>The argument \<^verbatim>\<open>{ id, x, y, w, h, kind }\<close> with every field given, and \<^verbatim>\<open>{}\<close>.\<close>

definition full_arg :: "string \<Rightarrow> number \<Rightarrow> number \<Rightarrow> number \<Rightarrow> number \<Rightarrow> BoxKind \<Rightarrow> PartialBox" where
  "full_arg i ax ay aw ah k =
     \<lparr>arg_id = Some i, arg_x = Some ax, arg_y = Some ay, arg_w = Some aw, arg_h = Some ah,
      arg_kind = Some k\<rparr>"

definition empty_arg :: PartialBox where
  "empty_arg =
     \<lparr>arg_id = None, arg_x = None, arg_y = None, arg_w = None, arg_h = None, arg_kind = None\<rparr>"

text \<open>A fresh session (both clock samples \<open>0\<close>) after two calls of \<^verbatim>\<open>add\<close>.\<close>

definition two_boxes :: "PartialBox \<Rightarrow> PartialBox \<Rightarrow> nat world" where
  "two_boxes a b = snd (add example_lib b (snd (add example_lib a (create 0 0))))"

section \<open>Properties\<close>

subsection \<open>Rounding to a double\<close>

lemma rne_of_int: "rne (of_int n) = n"
  by (simp add: rne_def)

lemma rne_bounds: "\<lfloor>y\<rfloor> \<le> rne y" "rne y \<le> \<lfloor>y\<rfloor> + 1"
  by (simp_all add: rne_def Let_def)

lemma rne_mono:
  assumes "y \<le> z" shows "rne y \<le> rne z"
proof (cases "\<lfloor>y\<rfloor> = \<lfloor>z\<rfloor>")
  case True
  then show ?thesis
    using assms by (auto simp: rne_def Let_def)
next
  case False
  then have "\<lfloor>y\<rfloor> < \<lfloor>z\<rfloor>"
    using floor_mono[OF assms] by linarith
  then show ?thesis
    using rne_bounds(2)[of y] rne_bounds(1)[of z] by linarith
qed

lemma powr_powi: "2 powr (real_of_int k) = (2::real) powi k"
  by (simp add: powr_real_of_int power_int_def power_one_over inverse_eq_divide)

lemma floor_log_eq:
  assumes "0 < x"
  shows "\<lfloor>log 2 x\<rfloor> = k \<longleftrightarrow> 2 powi k \<le> x \<and> x < 2 powi (k + 1)"
  using floor_log_eq_powr_iff[of x 2 k] assms powr_powi[of k] powr_powi[of "k + 1"]
  by simp

lemma expo_upper:
  assumes "x \<noteq> 0" shows "\<bar>x\<bar> < 2 powi (expo x + 1)"
proof -
  have "\<bar>x\<bar> < 2 powi (\<lfloor>log 2 \<bar>x\<bar>\<rfloor> + 1)"
    using floor_log_eq[of "\<bar>x\<bar>" "\<lfloor>log 2 \<bar>x\<bar>\<rfloor>"] assms by simp
  also have "\<dots> \<le> 2 powi (expo x + 1)"
    by (rule power_int_increasing) (simp_all add: expo_def)
  finally show ?thesis .
qed

lemma expo_lower:
  assumes "x \<noteq> 0" and "- 1022 < expo x" shows "2 powi (expo x) \<le> \<bar>x\<bar>"
proof -
  have "expo x = \<lfloor>log 2 \<bar>x\<bar>\<rfloor>"
    using assms(2) by (simp add: expo_def max_def split: if_splits)
  then show ?thesis
    using floor_log_eq[of "\<bar>x\<bar>" "\<lfloor>log 2 \<bar>x\<bar>\<rfloor>"] assms(1) by simp
qed

lemma expo_eqI:
  assumes "2 powi e \<le> \<bar>x\<bar>" and "\<bar>x\<bar> < 2 powi (e + 1)" and "- 1022 \<le> e"
  shows "expo x = e"
proof -
  have "0 < \<bar>x\<bar>"
    using assms(1) by (smt (verit) zero_less_power_int)
  then have "\<lfloor>log 2 \<bar>x\<bar>\<rfloor> = e"
    using floor_log_eq[of "\<bar>x\<bar>" e] assms by simp
  then show ?thesis
    using assms(3) by (simp add: expo_def)
qed

lemma expo_subnormal:
  assumes "x \<noteq> 0" and "\<bar>x\<bar> < 2 powi (- 1022)" shows "expo x = - 1022"
proof -
  note False = assms(1)
  have "\<lfloor>log 2 \<bar>x\<bar>\<rfloor> < - 1022"
  proof (rule ccontr)
    assume "\<not> \<lfloor>log 2 \<bar>x\<bar>\<rfloor> < - 1022"
    then have "(2::real) powi (- 1022) \<le> 2 powi \<lfloor>log 2 \<bar>x\<bar>\<rfloor>"
      by (intro power_int_increasing) simp_all
    also have "\<dots> \<le> \<bar>x\<bar>"
      using floor_log_eq[of "\<bar>x\<bar>" "\<lfloor>log 2 \<bar>x\<bar>\<rfloor>"] False by simp
    finally show False using assms by simp
  qed
  then show ?thesis by (simp add: expo_def)
qed

lemma expo_mono:
  assumes "x \<noteq> 0" and "\<bar>x\<bar> \<le> \<bar>y\<bar>" shows "expo x \<le> expo y"
proof -
  have "log 2 \<bar>x\<bar> \<le> log 2 \<bar>y\<bar>"
    using assms by simp
  then have "\<lfloor>log 2 \<bar>x\<bar>\<rfloor> \<le> \<lfloor>log 2 \<bar>y\<bar>\<rfloor>"
    by (rule floor_mono)
  then show ?thesis by (simp add: expo_def)
qed


lemma two_powi_split: "(2::real) powi (e + 1) = 2 ^ 53 * 2 powi (e - 52)"
proof -
  have "e + 1 = 53 + (e - 52)"
    by simp
  then have "(2::real) powi (e + 1) = 2 powi (53 + (e - 52))"
    by (rule arg_cong)
  also have "\<dots> = 2 powi 53 * 2 powi (e - 52)"
    by (rule power_int_add) simp
  finally show ?thesis by simp
qed

lemma two_powi_split': "(2::real) powi e = 2 ^ 52 * 2 powi (e - 52)"
proof -
  have "e = 52 + (e - 52)"
    by simp
  then have "(2::real) powi e = 2 powi (52 + (e - 52))"
    by (rule arg_cong)
  also have "\<dots> = 2 powi 52 * 2 powi (e - 52)"
    by (rule power_int_add) simp
  finally show ?thesis by simp
qed

lemma round_mag_nonneg:
  assumes "0 \<le> a" shows "0 \<le> round_mag a"
proof -
  have "0 \<le> a / 2 powi (expo a - 52)"
    using assms by simp
  then have "rne 0 \<le> rne (a / 2 powi (expo a - 52))"
    by (rule rne_mono)
  then have "0 \<le> rne (a / 2 powi (expo a - 52))"
    using rne_of_int[of 0] by simp
  then show ?thesis
    by (simp add: round_mag_def)
qed

lemma round_mag_upper:
  assumes "0 < a" shows "round_mag a \<le> 2 powi (expo a + 1)"
proof -
  let ?u = "(2::real) powi (expo a - 52)"
  have u: "0 < ?u" by simp
  have "a < 2 ^ 53 * ?u"
    using expo_upper[of a] assms by (simp add: two_powi_split)
  then have "a / ?u \<le> of_int (2 ^ 53)"
    using u by (simp add: field_simps)
  then have "rne (a / ?u) \<le> rne (of_int (2 ^ 53))"
    by (rule rne_mono)
  then have "rne (a / ?u) \<le> 2 ^ 53"
    by (simp only: rne_of_int)
  then have "real_of_int (rne (a / ?u)) \<le> 2 ^ 53"
    by (metis of_int_le_iff of_int_numeral of_int_power)
  then have "real_of_int (rne (a / ?u)) * ?u \<le> 2 ^ 53 * ?u"
    using u by (simp only: mult_le_cancel_right_pos)
  then show ?thesis
    by (simp only: round_mag_def two_powi_split)
qed

lemma round_mag_lower:
  assumes "0 < a" and "- 1022 < expo a" shows "2 powi (expo a) \<le> round_mag a"
proof -
  let ?u = "(2::real) powi (expo a - 52)"
  have u: "0 < ?u" by simp
  have "2 ^ 52 * ?u \<le> a"
    using expo_lower[of a] assms two_powi_split'[of "expo a"] by simp
  then have "of_int (2 ^ 52) \<le> a / ?u"
    using u by (simp add: field_simps)
  then have "rne (of_int (2 ^ 52)) \<le> rne (a / ?u)"
    by (rule rne_mono)
  then have "2 ^ 52 \<le> rne (a / ?u)"
    by (simp only: rne_of_int)
  then have "2 ^ 52 \<le> real_of_int (rne (a / ?u))"
    by (metis of_int_le_iff of_int_numeral of_int_power)
  then have "2 ^ 52 * ?u \<le> real_of_int (rne (a / ?u)) * ?u"
    using u by (simp only: mult_le_cancel_right_pos)
  then show ?thesis
    using two_powi_split'[of "expo a"] by (simp only: round_mag_def)
qed

lemma round_mag_mono:
  assumes "0 < a" and "a \<le> b" shows "round_mag a \<le> round_mag b"
proof -
  have b: "0 < b" using assms by simp
  have le: "expo a \<le> expo b"
    using expo_mono[of a b] assms by simp
  show ?thesis
  proof (cases "expo a = expo b")
    case True
    let ?u = "(2::real) powi (expo b - 52)"
    have u: "0 < ?u" by simp
    have "a / ?u \<le> b / ?u"
      using assms(2) u by (simp add: divide_right_mono)
    then have "rne (a / ?u) \<le> rne (b / ?u)"
      by (rule rne_mono)
    then have "real_of_int (rne (a / ?u)) * ?u \<le> real_of_int (rne (b / ?u)) * ?u"
      using u by simp
    then show ?thesis
      by (simp add: round_mag_def True)
  next
    case False
    then have lt: "expo a + 1 \<le> expo b" using le by simp
    have e: "- 1022 \<le> expo a" by (simp add: expo_def)
    have "round_mag a \<le> 2 powi (expo a + 1)"
      using assms(1) by (rule round_mag_upper)
    also have "\<dots> \<le> 2 powi (expo b)"
      using lt by (intro power_int_increasing) simp_all
    also have "\<dots> \<le> round_mag b"
      using b e lt by (intro round_mag_lower) simp_all
    finally show ?thesis .
  qed
qed

lemma round_double_pos: "0 < x \<Longrightarrow> round_double x = round_mag x"
  by (simp add: round_double_def)

lemma round_double_neg: "x < 0 \<Longrightarrow> round_double x = - round_mag (- x)"
  by (simp add: round_double_def)

lemma round_double_0: "round_double 0 = 0"
  by (simp add: round_double_def)

lemma round_double_mono:
  assumes "x \<le> y" shows "round_double x \<le> round_double y"
proof -
  consider "0 < x" | "y < 0" | "x \<le> 0" "0 \<le> y"
    using assms by linarith
  then show ?thesis
  proof cases
    case 1
    then show ?thesis
      using assms round_mag_mono[of x y] by (simp add: round_double_pos)
  next
    case 2
    then have "round_mag (- y) \<le> round_mag (- x)"
      using assms by (intro round_mag_mono) simp_all
    then show ?thesis
      using 2 assms by (simp add: round_double_neg)
  next
    case 3
    have "round_double x \<le> 0"
      using 3(1) round_mag_nonneg[of "- x"]
      by (cases "x = 0") (simp_all add: round_double_0 round_double_neg)
    moreover have "0 \<le> round_double y"
      using 3(2) round_mag_nonneg[of y]
      by (cases "y = 0") (simp_all add: round_double_0 round_double_pos)
    ultimately show ?thesis by simp
  qed
qed


lemma round_mag_eqI:
  assumes "2 powi e \<le> a" and "a < 2 powi (e + 1)" and "- 1022 \<le> e"
    and "rne (a / 2 powi (e - 52)) = n"
  shows "round_mag a = of_int n * 2 powi (e - 52)"
proof -
  have "0 < a"
    using assms(1) by (smt (verit) zero_less_power_int)
  then have "expo a = e"
    using expo_eqI[of e a] assms by simp
  then show ?thesis
    using assms(4) by (simp add: round_mag_def)
qed

lemma round_double_eqI:
  assumes "2 powi e \<le> x" and "x < 2 powi (e + 1)" and "- 1022 \<le> e"
    and "rne (x / 2 powi (e - 52)) = n"
  shows "round_double x = of_int n * 2 powi (e - 52)"
proof -
  have "0 < x"
    using assms(1) by (smt (verit) zero_less_power_int)
  then show ?thesis
    using round_mag_eqI[OF assms] by (simp add: round_double_pos)
qed

lemma round_mag_exact:
  assumes "0 < m" and "m < 2 ^ 53" and "- 1074 \<le> k"
  shows "round_mag (of_int m * 2 powi k) = of_int m * 2 powi k"
proof -
  define a where "a = real_of_int m * 2 powi k"
  define p where "p = expo a"
  have a: "0 < a" using assms(1) by (simp add: a_def)
  have "real_of_int m < 2 ^ 53"
    using assms(2) by (metis of_int_less_iff of_int_numeral of_int_power)
  then have "a < 2 ^ 53 * 2 powi k"
    by (simp add: a_def)
  also have "\<dots> = 2 powi (k + 53)"
    using two_powi_split[of "k + 52"] by (simp add: add.commute)
  finally have up: "a < 2 powi (k + 53)" .
  have pk: "p - 52 \<le> k"
  proof (cases "- 1022 < p")
    case True
    have "a \<noteq> 0" using a by linarith
    then have "2 powi p \<le> \<bar>a\<bar>"
      using True unfolding p_def by (rule expo_lower)
    then have lt: "(2::real) powi p < 2 powi (k + 53)"
      using up a by linarith
    have "p < k + 53"
    proof (rule ccontr)
      assume "\<not> p < k + 53"
      then have "(2::real) powi (k + 53) \<le> 2 powi p"
        by (intro power_int_increasing) simp_all
      then show False
        using lt by linarith
    qed
    then show ?thesis by simp
  next
    case False
    then have "p = - 1022"
      by (simp add: p_def expo_def max_def split: if_splits)
    then show ?thesis using assms(3) by simp
  qed
  define d where "d = nat (k - (p - 52))"
  have kd: "k = (p - 52) + int d"
    using pk by (simp add: d_def)
  have "(2::real) powi k = 2 powi (p - 52) * 2 powi (int d)"
    by (subst kd, rule power_int_add) simp
  then have split: "a = real_of_int m * (2 powi (p - 52) * 2 ^ d)"
    by (simp add: a_def)
  have "a / 2 powi (p - 52) = real_of_int m * 2 ^ d"
    by (simp add: split)
  also have "\<dots> = of_int (m * 2 ^ d)"
    by simp
  finally have "rne (a / 2 powi (p - 52)) = m * 2 ^ d"
    by (simp only: rne_of_int)
  then have "round_mag a = of_int (m * 2 ^ d) * 2 powi (p - 52)"
    by (simp add: round_mag_def p_def)
  also have "\<dots> = a"
    by (simp add: split)
  finally show ?thesis
    by (simp add: a_def)
qed

lemma round_double_exact:
  assumes "\<bar>m\<bar> < 2 ^ 53" and "- 1074 \<le> k"
  shows "round_double (of_int m * 2 powi k) = of_int m * 2 powi k"
proof -
  consider "m = 0" | "0 < m" | "m < 0" by linarith
  then show ?thesis
  proof cases
    case 1
    then show ?thesis by (simp add: round_double_0)
  next
    case 2
    then show ?thesis
      using round_mag_exact[of m k] assms by (simp add: round_double_pos)
  next
    case 3
    have "round_mag (of_int (- m) * 2 powi k) = of_int (- m) * 2 powi k"
      using 3 assms by (intro round_mag_exact) simp_all
    moreover have "real_of_int m * 2 powi k < 0"
      using 3 by (simp add: mult_neg_pos)
    ultimately show ?thesis
      by (simp add: round_double_neg)
  qed
qed

lemma round_double_of_int:
  assumes "\<bar>n\<bar> < 2 ^ 53" shows "round_double (of_int n) = of_int n"
  using round_double_exact[of n 0] assms by simp

lemma floor_round_double:
  assumes "of_int n \<le> x" and "x \<le> b" and "b < of_int n + 1"
    and "round_double b = b" and "\<bar>n\<bar> < 2 ^ 53"
  shows "\<lfloor>round_double x\<rfloor> = n"
proof -
  have "of_int n \<le> round_double x"
    using round_double_mono[OF assms(1)] round_double_of_int[OF assms(5)] by simp
  moreover have "round_double x \<le> b"
    using round_double_mono[OF assms(2)] assms(4) by simp
  ultimately show ?thesis
    using assms(3) by (simp add: floor_eq_iff)
qed

subsection \<open>The scheduler computes its frames in closed form\<close>

declare frames_loop.simps [simp del]

text \<open>
  The loop leaves the world as it is (each \<open>step\<close> does) and steps the frames
  \<open>pastFrames + f, \<dots>, pastFrames + fastForwardFrames - 1\<close> in this order; the list is
  empty when \<open>fastForwardFrames \<le> f\<close>.
\<close>

lemma frames_loop_eq:
  "frames_loop past ff f (w, ex) = (w, ex @ [past + f .. past + ff - 1])"
proof (induction past ff f "(w, ex)" arbitrary: w ex rule: frames_loop.induct)
  case (1 past ff f w ex)
  show ?case
  proof (cases "f < ff")
    case True
    have u: "[past + f .. past + ff - 1] = (past + f) # [past + (f + 1) .. past + ff - 1]"
      using True by (simp add: upto_rec1 add.assoc)
    show ?thesis
      using True "1.hyps"[OF True refl, of "(w, ())" w "()"]
      by (subst frames_loop.simps) (simp add: step_def u)
  next
    case False
    then show ?thesis by (subst frames_loop.simps) simp
  qed
qed

lemma onAnimationFrame_eq:
  "onAnimationFrame t w =
     (let past = \<lfloor>js_div (js_sub (lastTime (physics w)) (startTime (physics w))) (stepMs (physics w))\<rfloor>;
          all = \<lfloor>js_div (js_sub t (startTime (physics w))) (stepMs (physics w))\<rfloor>
      in (if all \<noteq> past then w\<lparr>physics := (physics w)\<lparr>lastTime := t\<rparr>\<rparr> else w, [past .. all - 1]))"
  by (simp add: onAnimationFrame_def nullish_coalesce_def Let_def frames_loop_eq)

text \<open>
  Evaluation of the quotients of the examples. The default step \<^verbatim>\<open>1000 / 60\<close> is the
  double \<open>16.666666666666668\<close>, slightly above \<open>50/3\<close>, and \<^verbatim>\<open>50 / stepMs\<close> rounds
  to exactly \<open>3\<close>.
\<close>

lemma js_sub_0: "\<bar>n\<bar> < 2 ^ 53 \<Longrightarrow> js_sub (of_int n) 0 = of_int n"
  by (simp add: js_sub_def round_double_of_int)

lemma default_stepMs: "js_div 1000 60 = 4691249611844267 / 2 ^ 48"
  unfolding js_div_def
  using round_double_eqI[of 4 "1000 / 60" 4691249611844267]
  by (simp add: rne_def Let_def)

lemma default_quotient_50: "js_div 50 (js_div 1000 60) = 3"
proof -
  have "js_div 50 (4691249611844267 / 2 ^ 48) = 3"
    unfolding js_div_def
    using round_double_eqI[of 1 "50 / (4691249611844267 / 2 ^ 48)" "3 * 2 ^ 51"]
    by (simp add: rne_def Let_def)
  then show ?thesis
    by (simp only: default_stepMs)
qed

lemma default_stepMs_bounds: "16 < js_div 1000 60" "js_div 1000 60 < 17"
  by (simp_all add: default_stepMs)

lemma sample_value: "sample_49_99 = 7035467042882847 / 2 ^ 47"
  unfolding sample_49_99_def
  using round_double_eqI[of 5 "49.99" 7035467042882847]
  by (simp add: rne_def Let_def)

lemma half_exact: "round_double (1 / 2) = 1 / 2" "round_double (3 / 2) = 3 / 2"
  "round_double (5 / 2) = 5 / 2" "round_double (7 / 2) = 7 / 2"
  using round_double_exact[of 1 "- 1"] round_double_exact[of 3 "- 1"]
    round_double_exact[of 5 "- 1"] round_double_exact[of 7 "- 1"]
  by simp_all


lemma floor_js_div:
  assumes "of_int n \<le> a / b" and "a / b \<le> c" and "c < of_int n + 1"
    and "round_double c = c" and "\<bar>n\<bar> < 2 ^ 53"
  shows "\<lfloor>js_div a b\<rfloor> = n"
  unfolding js_div_def using assms by (rule floor_round_double)

lemma js_sub_0_left: "js_sub 0 0 = 0" "js_div 0 b = 0"
  by (simp_all add: js_sub_def js_div_def round_double_0)

lemma js_sub_examples:
  "js_sub 5 0 = 5" "js_sub 12 0 = 12" "js_sub 15 0 = 15" "js_sub 25 0 = 25"
  "js_sub 35 0 = 35" "js_sub 50 0 = 50" "js_sub 100 0 = 100"
  using js_sub_0[of 5] js_sub_0[of 12] js_sub_0[of 15] js_sub_0[of 25]
    js_sub_0[of 35] js_sub_0[of 50] js_sub_0[of 100]
  by simp_all

lemma js_div_by_10:
  "\<lfloor>js_div 5 10\<rfloor> = 0" "\<lfloor>js_div 12 10\<rfloor> = 1" "\<lfloor>js_div 15 10\<rfloor> = 1"
  "\<lfloor>js_div 25 10\<rfloor> = 2" "\<lfloor>js_div 35 10\<rfloor> = 3"
  using floor_js_div[of 0 5 10 "1 / 2"] floor_js_div[of 1 12 10 "3 / 2"]
    floor_js_div[of 1 15 10 "3 / 2"] floor_js_div[of 2 25 10 "5 / 2"]
    floor_js_div[of 3 35 10 "7 / 2"]
  by (simp_all add: half_exact)

lemma frames_mono:
  assumes "0 < m" and "t \<le> l"
  shows "\<lfloor>js_div (js_sub t s) m\<rfloor> \<le> \<lfloor>js_div (js_sub l s) m\<rfloor>"
proof -
  have "js_sub t s \<le> js_sub l s"
    unfolding js_sub_def using assms(2) by (intro round_double_mono) simp
  then have "js_sub t s / m \<le> js_sub l s / m"
    using assms(1) by (simp add: divide_right_mono)
  then have "js_div (js_sub t s) m \<le> js_div (js_sub l s) m"
    unfolding js_div_def by (rule round_double_mono)
  then show ?thesis
    by (rule floor_mono)
qed

text \<open>The literal \<open>16.667\<close>, read exactly or as the double nearest to it.\<close>

lemma stepMs_16667:
  assumes "s = 16.667 \<or> s = round_double 16.667"
  shows "17067 / 1024 \<le> s" and "s \<le> 17068 / 1024"
proof -
  have lo: "round_double (17067 / 1024) = 17067 / 1024"
    using round_double_exact[of 17067 "- 10"] by simp
  have hi: "round_double (17068 / 1024) = 17068 / 1024"
    using round_double_exact[of 17068 "- 10"] by simp
  have "17067 / 1024 \<le> round_double 16.667"
    using round_double_mono[of "17067 / 1024" "16.667"] lo by simp
  moreover have "round_double 16.667 \<le> 17068 / 1024"
    using round_double_mono[of "16.667" "17068 / 1024"] hi by simp
  ultimately show "17067 / 1024 \<le> s" and "s \<le> 17068 / 1024"
    using assms by auto
qed

lemma frames_16667:
  assumes "s = 16.667 \<or> s = round_double 16.667"
  shows "\<lfloor>js_div 50 s\<rfloor> = 2" and "\<lfloor>js_div 100 s\<rfloor> = 5"
proof -
  note b = stepMs_16667[OF assms]
  have pos: "0 < s" using b(1) by simp
  have c1: "round_double (98303 / 32768) = 98303 / 32768"
    using round_double_exact[of 98303 "- 15"] by simp
  have c2: "round_double (98303 / 16384) = 98303 / 16384"
    using round_double_exact[of 98303 "- 14"] by simp
  have "2 \<le> 50 / s" "50 / s \<le> 98303 / 32768"
    using b pos by (simp_all add: field_simps)
  then show "\<lfloor>js_div 50 s\<rfloor> = 2"
    using floor_js_div[of 2 50 s "98303 / 32768"] c1 by simp
  have "5 \<le> 100 / s" "100 / s \<le> 98303 / 16384"
    using b pos by (simp_all add: field_simps)
  then show "\<lfloor>js_div 100 s\<rfloor> = 5"
    using floor_js_div[of 5 100 s "98303 / 16384"] c2 by simp
qed

lemma default_stepMs_lower: "16.6666 \<le> js_div 1000 60"
  by (simp add: default_stepMs)

lemma sample_bounds: "49 < sample_49_99" "sample_49_99 \<le> 49.991"
  by (simp_all add: sample_value)

lemma sample_idem: "js_sub sample_49_99 0 = sample_49_99"
proof -
  have "round_double (7035467042882847 / 2 ^ 47) = 7035467042882847 / 2 ^ 47"
    using round_double_exact[of 7035467042882847 "- 47"] by simp
  then show ?thesis
    by (simp only: js_sub_def sample_value diff_zero)
qed

lemma sample_frame: "\<lfloor>js_div sample_49_99 (js_div 1000 60)\<rfloor> = 2"
proof -
  let ?t = "sample_49_99" and ?m = "js_div 1000 60"
  have c: "round_double (98303 / 32768) = 98303 / 32768"
    using round_double_exact[of 98303 "- 15"] by simp
  have m: "0 < ?m" using default_stepMs_bounds(1) by simp
  have "2 * ?m \<le> ?t"
    using default_stepMs_bounds(2) sample_bounds(1) by simp
  then have lo: "2 \<le> ?t / ?m"
    using m by (simp add: field_simps)
  have "?t \<le> 98303 / 32768 * ?m"
    using default_stepMs_lower sample_bounds(2) by simp
  then have hi: "?t / ?m \<le> 98303 / 32768"
    using m by (simp add: field_simps)
  show ?thesis
    using floor_js_div[of 2 ?t ?m "98303 / 32768"] lo hi c by simp
qed

subsection \<open>C1: the steps of one tick\<close>

text \<open>
  C1, as it is written, says that the number of steps of a tick is
  \<open>allFrames - pastFrames\<close>. The loop \<^verbatim>\<open>for (let f = 0; f < fastForwardFrames; f++)\<close>
  runs no step when that difference is negative: with \<open>stepMs = 10\<close>,
  \<open>startTime = 0\<close>, \<open>lastTime = 25\<close> and a sample at \<open>5\<close> the difference is
  \<open>0 - 2 = -2\<close> and no step runs.
\<close>

theorem tick_steps_counterexample:
  "tick_in_range 5 (clock_world 10 0 25)
   \<and> length (snd (onAnimationFrame 5 (clock_world 10 0 25))) = 0
   \<and> \<lfloor>js_div (js_sub 5 (startTime (physics (clock_world 10 0 25))))
              (stepMs (physics (clock_world 10 0 25)))\<rfloor>
       - \<lfloor>js_div (js_sub (lastTime (physics (clock_world 10 0 25)))
                       (startTime (physics (clock_world 10 0 25))))
                (stepMs (physics (clock_world 10 0 25)))\<rfloor> = - 2"
  by (simp add: onAnimationFrame_eq clock_world_def tick_in_range_def finite_double_def
      js_sub_examples js_div_by_10)

text \<open>
  C1, amended: for every tick in the range of the model (\<open>stepMs \<noteq> 0\<close>, no overflow,
  quotients below \<open>2\<^sup>5\<^sup>2\<close>) the number of steps is \<open>max 0 (allFrames - pastFrames)\<close>,
  where \<open>pastFrames = \<lfloor>(lastTime - startTime) / stepMs\<rfloor>\<close> and
  \<open>allFrames = \<lfloor>(t - startTime) / stepMs\<rfloor>\<close> as the code computes them, each operation
  rounded to a double; the frames stepped are
  \<open>pastFrames, pastFrames + 1, \<dots>, allFrames - 1\<close> in this order; when the difference
  is not zero (negative included) \<open>lastTime\<close> becomes \<open>t\<close> itself and nothing else
  changes, and when it is zero the state is unchanged.
\<close>

theorem tick_steps:
  assumes "tick_in_range t w"
  shows "let pastFrames = \<lfloor>js_div (js_sub (lastTime (physics w)) (startTime (physics w)))
                                 (stepMs (physics w))\<rfloor>;
             allFrames = \<lfloor>js_div (js_sub t (startTime (physics w))) (stepMs (physics w))\<rfloor>;
             (w', executed) = onAnimationFrame t w
         in int (length executed) = max 0 (allFrames - pastFrames)
            \<and> executed = [pastFrames .. allFrames - 1]
            \<and> w' = (if allFrames - pastFrames \<noteq> 0
                     then w\<lparr>physics := (physics w)\<lparr>lastTime := t\<rparr>\<rparr> else w)"
  by (simp add: onAnimationFrame_eq Let_def)

text \<open>
  Witness for C1: the default step, start and last time \<open>0\<close>, a sample at \<open>50\<close>. The
  quotient \<^verbatim>\<open>50 / stepMs\<close> is the double \<open>3\<close> (the exact quotient is just below), so
  three frames are due, \<open>0, 1, 2\<close>, and \<open>lastTime\<close> becomes \<open>50\<close>.
\<close>

theorem tick_steps_witness:
  "tick_in_range 50 (clock_world (js_div 1000 60) 0 0)
   \<and> onAnimationFrame 50 (clock_world (js_div 1000 60) 0 0)
       = (clock_world (js_div 1000 60) 0 50, [0, 1, 2])"
proof -
  have "\<bar>50 / js_div 1000 60\<bar> < 50 / 16"
    using default_stepMs_bounds by (simp add: field_simps)
  then have r: "tick_in_range 50 (clock_world (js_div 1000 60) 0 0)"
    using default_stepMs_bounds(1)
    by (simp add: tick_in_range_def clock_world_def finite_double_def
        js_sub_examples js_sub_0_left)
  show ?thesis
    using tick_steps [OF r] r
    by (simp add: clock_world_def Let_def default_quotient_50
        js_sub_examples js_sub_0_left upto_rec1 split: prod.splits)
qed

subsection \<open>C6: the frame counts at 50 ms and 100 ms\<close>

text \<open>
  C6: with \<open>stepMs = 16.667\<close> (the literal read exactly, or as the double nearest to
  it), \<open>startTime = 0\<close> and \<open>lastTime = 0\<close>, the tick at \<open>50\<close> steps exactly the
  frames \<open>0\<close> and \<open>1\<close>; the next tick, at \<open>100\<close>, steps exactly the frames
  \<open>2, 3, 4\<close>: their number is \<open>\<lfloor>100 / 16.667\<rfloor> - 2\<close>, and frames \<open>0\<close> and \<open>1\<close> are not
  among them.
\<close>

theorem frame_count_example:
  assumes "stepMs (physics w) = 16.667 \<or> stepMs (physics w) = round_double 16.667"
    and "startTime (physics w) = 0" and "lastTime (physics w) = 0"
  shows "snd (onAnimationFrame 50 w) = [0, 1]
         \<and> snd (onAnimationFrame 100 (fst (onAnimationFrame 50 w))) = [2, 3, 4]
         \<and> int (length (snd (onAnimationFrame 100 (fst (onAnimationFrame 50 w)))))
             = \<lfloor>100 / 16.667 :: real\<rfloor> - 2"
proof -
  note f = frames_16667[OF assms(1)]
  have past0: "\<lfloor>js_div (js_sub (lastTime (physics w)) (startTime (physics w))) (stepMs (physics w))\<rfloor> = 0"
    by (simp add: assms(2,3) js_sub_0_left)
  have all50: "\<lfloor>js_div (js_sub 50 (startTime (physics w))) (stepMs (physics w))\<rfloor> = 2"
    by (simp add: assms(2) js_sub_examples f)
  have all100: "\<lfloor>js_div (js_sub 100 (startTime (physics w))) (stepMs (physics w))\<rfloor> = 5"
    by (simp add: assms(2) js_sub_examples f)
  have first: "onAnimationFrame 50 w = (w\<lparr>physics := (physics w)\<lparr>lastTime := 50\<rparr>\<rparr>, [0, 1])"
    by (simp add: onAnimationFrame_eq Let_def past0 all50 upto_rec1)
  have second: "onAnimationFrame 100 (w\<lparr>physics := (physics w)\<lparr>lastTime := 50\<rparr>\<rparr>)
                  = (w\<lparr>physics := (physics w)\<lparr>lastTime := 100\<rparr>\<rparr>, [2, 3, 4])"
    by (simp add: onAnimationFrame_eq Let_def all50 all100 upto_rec1)
  show ?thesis
    by (simp add: first second)
qed

text \<open>Witness for C6: the session with that clock and no box, for both readings of the literal.\<close>

theorem frame_count_example_witness:
  "(stepMs (physics (clock_world 16.667 0 0)) = 16.667
      \<or> stepMs (physics (clock_world 16.667 0 0)) = round_double 16.667)
   \<and> startTime (physics (clock_world 16.667 0 0)) = 0
   \<and> lastTime (physics (clock_world 16.667 0 0)) = 0
   \<and> snd (onAnimationFrame 50 (clock_world 16.667 0 0)) = [0, 1]
   \<and> snd (onAnimationFrame 100 (fst (onAnimationFrame 50 (clock_world 16.667 0 0)))) = [2, 3, 4]
   \<and> snd (onAnimationFrame 50 (clock_world (round_double 16.667) 0 0)) = [0, 1]
   \<and> snd (onAnimationFrame 100 (fst (onAnimationFrame 50 (clock_world (round_double 16.667) 0 0))))
       = [2, 3, 4]"
  using frame_count_example [of "clock_world 16.667 0 0"]
    frame_count_example [of "clock_world (round_double 16.667) 0 0"]
  by (simp add: clock_world_def)

subsection \<open>C7: a second tick at the same sample\<close>

text \<open>
  C7: for every clock state with \<open>stepMs \<noteq> 0\<close>, after a tick at \<open>t\<close> a second tick at
  the same \<open>t\<close> steps no frame and leaves the whole state (clock and registry) as the
  first tick left it.
\<close>

theorem tick_twice:
  assumes "stepMs (physics w) \<noteq> 0"
  shows "onAnimationFrame t (fst (onAnimationFrame t w)) = (fst (onAnimationFrame t w), [])"
  by (simp add: onAnimationFrame_eq Let_def)

text \<open>Witness for C7: three frames at \<open>35\<close> with a step of \<open>10\<close>, then none.\<close>

theorem tick_twice_witness:
  "stepMs (physics (clock_world 10 0 0)) \<noteq> 0
   \<and> onAnimationFrame 35 (clock_world 10 0 0) = (clock_world 10 0 35, [0, 1, 2])
   \<and> onAnimationFrame 35 (clock_world 10 0 35) = (clock_world 10 0 35, [])"
proof -
  have a: "onAnimationFrame 35 (clock_world 10 0 0) = (clock_world 10 0 35, [0, 1, 2])"
    by (simp add: onAnimationFrame_eq clock_world_def js_sub_examples js_sub_0_left
        js_div_by_10 upto_rec1)
  show ?thesis
    using tick_twice [of "clock_world 10 0 0" 35] by (simp add: a) (simp add: clock_world_def)
qed

subsection \<open>C10: a sample earlier than \<open>lastTime\<close>\<close>

text \<open>
  C10, as it is written, says that every sample strictly earlier than \<open>lastTime\<close> gives
  a negative frame count and overwrites \<open>lastTime\<close>. A sample that falls in the same
  frame as \<open>lastTime\<close> gives the count \<open>0\<close>, and then \<open>lastTime\<close> is kept: with
  \<open>stepMs = 10\<close>, \<open>startTime = 0\<close>, \<open>lastTime = 15\<close> and a sample at \<open>12\<close> both floors
  are \<open>1\<close>, and \<open>lastTime\<close> is still \<open>15\<close> after the tick.
\<close>

theorem rewind_counterexample:
  "12 < lastTime (physics (clock_world 10 0 15))
   \<and> 0 < stepMs (physics (clock_world 10 0 15))
   \<and> tick_in_range 12 (clock_world 10 0 15)
   \<and> \<lfloor>js_div (js_sub 12 (startTime (physics (clock_world 10 0 15))))
              (stepMs (physics (clock_world 10 0 15)))\<rfloor>
       - \<lfloor>js_div (js_sub (lastTime (physics (clock_world 10 0 15)))
                       (startTime (physics (clock_world 10 0 15))))
                (stepMs (physics (clock_world 10 0 15)))\<rfloor> = 0
   \<and> lastTime (physics (fst (onAnimationFrame 12 (clock_world 10 0 15)))) = 15"
  by (simp add: onAnimationFrame_eq clock_world_def tick_in_range_def finite_double_def
      js_sub_examples js_div_by_10)

text \<open>
  C10, amended: for every tick in the range of the model with \<open>0 < stepMs\<close> and a
  sample \<open>t\<close> strictly earlier than \<open>lastTime\<close>, the frame count
  \<open>allFrames - pastFrames\<close> (both floors as the code computes them, in doubles) is zero
  or negative and the tick steps no frame. When the count is zero the state is
  unchanged. When it is negative, \<open>lastTime\<close> is overwritten with \<open>t\<close>, and the next
  tick, at any \<open>t2\<close>, steps the frames from \<open>allFrames\<close> on; at \<open>t2\<close> = the old
  \<open>lastTime\<close> these are the frames \<open>allFrames, \<dots>, pastFrames - 1\<close>, at least one, all
  below the frame the clock had reached before the rewind.
\<close>

theorem rewind:
  assumes "0 < stepMs (physics w)" and "t < lastTime (physics w)" and "tick_in_range t w"
  shows "let pastFrames = \<lfloor>js_div (js_sub (lastTime (physics w)) (startTime (physics w)))
                                 (stepMs (physics w))\<rfloor>;
             allFrames = \<lfloor>js_div (js_sub t (startTime (physics w))) (stepMs (physics w))\<rfloor>;
             (w', executed) = onAnimationFrame t w
         in allFrames - pastFrames \<le> 0
            \<and> executed = []
            \<and> (allFrames - pastFrames = 0 \<longrightarrow> w' = w)
            \<and> (allFrames - pastFrames < 0 \<longrightarrow>
                  lastTime (physics w') = t
                  \<and> (\<forall>t2. snd (onAnimationFrame t2 w')
                            = [allFrames .. \<lfloor>js_div (js_sub t2 (startTime (physics w)))
                                                    (stepMs (physics w))\<rfloor> - 1])
                  \<and> snd (onAnimationFrame (lastTime (physics w)) w') = [allFrames .. pastFrames - 1]
                  \<and> snd (onAnimationFrame (lastTime (physics w)) w') \<noteq> [])"
proof -
  have le: "\<lfloor>js_div (js_sub t (startTime (physics w))) (stepMs (physics w))\<rfloor>
              \<le> \<lfloor>js_div (js_sub (lastTime (physics w)) (startTime (physics w))) (stepMs (physics w))\<rfloor>"
    using assms(1,2) by (intro frames_mono) simp_all
  show ?thesis
    using le by (simp add: onAnimationFrame_eq Let_def)
qed

text \<open>
  Witness for C10: the default step, \<open>startTime = 0\<close>, \<open>lastTime = 50\<close> and a sample at
  \<^verbatim>\<open>49.99\<close>. In doubles \<^verbatim>\<open>50 / stepMs\<close> is \<open>3\<close> and \<^verbatim>\<open>49.99 / stepMs\<close> is
  \<open>2.9994\<close>, so the count is \<open>2 - 3 = -1\<close>: no frame is stepped, \<open>lastTime\<close> becomes
  the sample, and a tick at \<open>50\<close> then steps frame \<open>2\<close> again.
\<close>

theorem rewind_witness:
  "0 < stepMs (physics (clock_world (js_div 1000 60) 0 50))
   \<and> sample_49_99 < lastTime (physics (clock_world (js_div 1000 60) 0 50))
   \<and> tick_in_range sample_49_99 (clock_world (js_div 1000 60) 0 50)
   \<and> onAnimationFrame sample_49_99 (clock_world (js_div 1000 60) 0 50)
       = (clock_world (js_div 1000 60) 0 sample_49_99, [])
   \<and> snd (onAnimationFrame 50 (clock_world (js_div 1000 60) 0 sample_49_99)) = [2]"
proof -
  let ?W = "clock_world (js_div 1000 60) 0 50"
  have h1: "0 < stepMs (physics ?W)"
    using default_stepMs_bounds(1) by (simp add: clock_world_def)
  have h2: "sample_49_99 < lastTime (physics ?W)"
    using sample_bounds(2) by (simp add: clock_world_def)
  have m: "0 < js_div 1000 60"
    using default_stepMs_bounds(1) by simp
  have q1: "\<bar>js_sub 50 0 / js_div 1000 60\<bar> < 2 ^ 52"
    using m default_stepMs_bounds(1) by (simp add: js_sub_examples pos_divide_less_eq)
  have q2: "\<bar>js_sub sample_49_99 0 / js_div 1000 60\<bar> < 2 ^ 52"
    using m default_stepMs_bounds(1) sample_bounds
    by (simp add: sample_idem pos_divide_less_eq)
  have f1: "finite_double (50 - 0)" "finite_double (sample_49_99 - 0)"
    using sample_bounds by (simp_all add: finite_double_def)
  have h3: "tick_in_range sample_49_99 ?W"
    using m q1 q2 f1 by (simp add: tick_in_range_def clock_world_def)
  have a: "onAnimationFrame sample_49_99 ?W
             = (clock_world (js_div 1000 60) 0 sample_49_99, [])"
    by (simp add: onAnimationFrame_eq clock_world_def js_sub_examples sample_idem
        default_quotient_50 sample_frame)
  show ?thesis
    using rewind [OF h1 h2 h3] h1 h2 h3
    by (simp add: a Let_def)
       (simp add: clock_world_def js_sub_examples sample_idem default_quotient_50 sample_frame)
qed

subsection \<open>C9: one cached generator per seed\<close>

text \<open>The invariant holds in a fresh process and every call of \<open>random\<close> keeps it.\<close>

lemma cache_wf_create: "cache_wf (create a b)"
  by (simp add: cache_wf_def create_def empty_store_def)

text \<open>The two paths of \<open>random\<close>: a seed seen for the first time, and a cached seed.\<close>

lemma random_new:
  assumes "random_cache w seed = None"
  shows "random L seed w =
           (Inr (fst (call_prng L (seedrandom L seed))),
            w\<lparr>prng_store := \<lparr>cells = (cells (prng_store w))(fresh (prng_store w) \<mapsto> snd (call_prng L (seedrandom L seed))),
                               fresh = Suc (fresh (prng_store w))\<rparr>,
               random_cache := (random_cache w)(seed \<mapsto> fresh (prng_store w))\<rparr>)"
  using assms by (simp add: random_def alloc_def Let_def split: prod.splits)

lemma random_cached:
  assumes "random_cache w seed = Some r" and "cells (prng_store w) r = Some g"
  shows "random L seed w =
           (Inr (fst (call_prng L g)),
            w\<lparr>prng_store := (prng_store w)\<lparr>cells := (cells (prng_store w))(r \<mapsto> snd (call_prng L g))\<rparr>\<rparr>)"
  using assms by (simp add: random_def Let_def split: prod.splits)

lemma cache_wf_cell:
  assumes "cache_wf w" and "random_cache w seed = Some r"
  obtains g where "cells (prng_store w) r = Some g"
proof -
  have "cells (prng_store w) r \<noteq> None"
    using assms unfolding cache_wf_def by blast
  then show ?thesis using that by blast
qed

lemma cache_wf_random: 
  assumes "cache_wf w" shows "cache_wf (snd (random L seed w))"
proof (cases "random_cache w seed")
  case None
  have lt: "\<And>s r. random_cache w s = Some r \<Longrightarrow> r < fresh (prng_store w)"
    using assms unfolding cache_wf_def by blast
  have ex: "\<And>s r. random_cache w s = Some r \<Longrightarrow> cells (prng_store w) r \<noteq> None"
    using assms unfolding cache_wf_def by blast
  have inj: "\<And>s1 s2 r. random_cache w s1 = Some r \<Longrightarrow> random_cache w s2 = Some r \<Longrightarrow> s1 = s2"
    using assms unfolding cache_wf_def by blast
  have lt2: "\<And>r. cells (prng_store w) r \<noteq> None \<Longrightarrow> r < fresh (prng_store w)"
    using assms unfolding cache_wf_def by blast
  define f where "f = fresh (prng_store w)"
  define g' where "g' = snd (call_prng L (seedrandom L seed))"
  have a: "\<forall>s r. ((random_cache w)(seed \<mapsto> f)) s = Some r \<longrightarrow>
             r < Suc f \<and> ((cells (prng_store w))(f \<mapsto> g')) r \<noteq> None"
    using lt ex unfolding f_def by (auto simp: less_Suc_eq split: if_splits)
  have b: "\<forall>s1 s2 r. ((random_cache w)(seed \<mapsto> f)) s1 = Some r
              \<and> ((random_cache w)(seed \<mapsto> f)) s2 = Some r \<longrightarrow> s1 = s2"
    using lt inj unfolding f_def by (fastforce split: if_splits)
  have c: "\<forall>r. ((cells (prng_store w))(f \<mapsto> g')) r \<noteq> None \<longrightarrow> r < Suc f"
    using lt2 unfolding f_def by (auto simp: less_Suc_eq split: if_splits)
  have sel: "random_cache (snd (random L seed w)) = (random_cache w)(seed \<mapsto> f)"
    "cells (prng_store (snd (random L seed w))) = (cells (prng_store w))(f \<mapsto> g')"
    "fresh (prng_store (snd (random L seed w))) = Suc f"
    by (simp_all add: random_new[OF None] f_def g'_def)
  show ?thesis
    unfolding cache_wf_def sel using a b c by blast
next
  case (Some r)
  obtain g where g: "cells (prng_store w) r = Some g"
    using cache_wf_cell[OF assms Some] .
  have lt: "\<And>s r. random_cache w s = Some r \<Longrightarrow> r < fresh (prng_store w)"
    using assms unfolding cache_wf_def by blast
  have ex: "\<And>s r. random_cache w s = Some r \<Longrightarrow> cells (prng_store w) r \<noteq> None"
    using assms unfolding cache_wf_def by blast
  have inj: "\<forall>s1 s2 r. random_cache w s1 = Some r \<and> random_cache w s2 = Some r \<longrightarrow> s1 = s2"
    using assms unfolding cache_wf_def by blast
  have lt2: "\<And>r. cells (prng_store w) r \<noteq> None \<Longrightarrow> r < fresh (prng_store w)"
    using assms unfolding cache_wf_def by blast
  define g' where "g' = snd (call_prng L g)"
  have a: "\<forall>s r'. random_cache w s = Some r' \<longrightarrow>
             r' < fresh (prng_store w) \<and> ((cells (prng_store w))(r \<mapsto> g')) r' \<noteq> None"
    using lt ex by auto
  have c: "\<forall>r'. ((cells (prng_store w))(r \<mapsto> g')) r' \<noteq> None \<longrightarrow> r' < fresh (prng_store w)"
    using lt2 lt[OF Some] by (auto split: if_splits)
  have sel: "random_cache (snd (random L seed w)) = random_cache w"
    "cells (prng_store (snd (random L seed w))) = (cells (prng_store w))(r \<mapsto> g')"
    "fresh (prng_store (snd (random L seed w))) = fresh (prng_store w)"
    by (simp_all add: random_cached[OF Some g] g'_def)
  show ?thesis
    unfolding cache_wf_def sel using a inj c by blast
qed

text \<open>
  C9: in a state that satisfies the cache invariant (a fresh process does, and every call
  keeps it), a call of \<open>random\<close> with a seed (\<open>None\<close> is the absent seed)
  \<^item> that is not cached yet constructs exactly one generator, \<open>seedrandom seed\<close>, at
    an address not in use before, caches that address under the seed and draws the
    generator's first value;
  \<^item> that is cached constructs nothing, leaves the cache as it is and draws the next
    value from the generator at the cached address, whose state advances in place.
  In both cases no other generator changes, no two seeds of the cache share an
  address, and the cache only grows: every entry it had is still there.
\<close>

theorem random_one_generator_per_seed:
  assumes "cache_wf w"
  shows "case random L seed w of (res, w') \<Rightarrow>
           cache_wf w'
           \<and> (\<forall>s1 s2 r. random_cache w' s1 = Some r \<and> random_cache w' s2 = Some r \<longrightarrow> s1 = s2)
           \<and> random_cache w \<subseteq>\<^sub>m random_cache w'
           \<and> physics w' = physics w \<and> box_store w' = box_store w
           \<and> (case random_cache w seed of
                 None \<Rightarrow>
                   res = Inr (fst (call_prng L (seedrandom L seed)))
                   \<and> fresh (prng_store w') = Suc (fresh (prng_store w))
                   \<and> cells (prng_store w) (fresh (prng_store w)) = None
                   \<and> random_cache w' = (random_cache w)(seed \<mapsto> fresh (prng_store w))
                   \<and> cells (prng_store w') =
                       (cells (prng_store w))(fresh (prng_store w) \<mapsto> snd (call_prng L (seedrandom L seed)))
               | Some r \<Rightarrow>
                   (\<exists>g. cells (prng_store w) r = Some g
                        \<and> res = Inr (fst (call_prng L g))
                        \<and> cells (prng_store w') = (cells (prng_store w))(r \<mapsto> snd (call_prng L g)))
                   \<and> fresh (prng_store w') = fresh (prng_store w)
                   \<and> random_cache w' = random_cache w)"
proof -
  obtain res w' where eq: "random L seed w = (res, w')"
    by (cases "random L seed w")
  have wf': "cache_wf w'"
    using cache_wf_random[OF assms, of L seed] by (simp add: eq)
  have inj': "\<forall>s1 s2 r. random_cache w' s1 = Some r \<and> random_cache w' s2 = Some r \<longrightarrow> s1 = s2"
    using wf' unfolding cache_wf_def by blast
  show ?thesis
  proof (cases "random_cache w seed")
    case None
    have free: "cells (prng_store w) (fresh (prng_store w)) = None"
      using assms unfolding cache_wf_def by (metis less_irrefl)
    have facts: "res = Inr (fst (call_prng L (seedrandom L seed)))"
      "fresh (prng_store w') = Suc (fresh (prng_store w))"
      "random_cache w' = (random_cache w)(seed \<mapsto> fresh (prng_store w))"
      "cells (prng_store w') =
         (cells (prng_store w))(fresh (prng_store w) \<mapsto> snd (call_prng L (seedrandom L seed)))"
      "physics w' = physics w" "box_store w' = box_store w"
      using eq unfolding random_new[OF None] by auto
    have le: "random_cache w \<subseteq>\<^sub>m random_cache w'"
      unfolding facts(3) using None by (auto simp: map_le_def)
    show ?thesis
      unfolding eq prod.case None option.case
      using wf' inj' free facts le by blast
  next
    case (Some r)
    obtain g where g: "cells (prng_store w) r = Some g"
      using cache_wf_cell[OF assms Some] .
    have facts: "res = Inr (fst (call_prng L g))"
      "fresh (prng_store w') = fresh (prng_store w)"
      "random_cache w' = random_cache w"
      "cells (prng_store w') = (cells (prng_store w))(r \<mapsto> snd (call_prng L g))"
      "physics w' = physics w" "box_store w' = box_store w"
      using eq unfolding random_cached[OF Some g] by auto
    have le: "random_cache w \<subseteq>\<^sub>m random_cache w'"
      unfolding facts(3) by simp
    show ?thesis
      unfolding eq prod.case Some option.case
      using wf' inj' g facts le by blast
  qed
qed

text \<open>
  Witness for C9: in a fresh process the first unseeded call allocates generator \<open>0\<close>
  and draws \<open>1/2\<close>; the second reuses it and draws \<open>1/3\<close> without allocating; a
  call with the seed \<open>''a''\<close> allocates generator \<open>1\<close>.
\<close>

theorem random_one_generator_per_seed_witness:
  "cache_wf (create 0 0 :: nat world)
   \<and> fst (random example_lib None (create 0 0)) = Inr (1 / 2)
   \<and> fresh (prng_store (snd (random example_lib None (create 0 0)))) = 1
   \<and> random_cache (snd (random example_lib None (create 0 0))) None = Some 0
   \<and> cache_wf (snd (random example_lib None (create 0 0)))
   \<and> fst (random example_lib None (snd (random example_lib None (create 0 0)))) = Inr (1 / 3)
   \<and> fresh (prng_store (snd (random example_lib None (snd (random example_lib None (create 0 0)))))) = 1
   \<and> fst (random example_lib (Some ''a'') (snd (random example_lib None (create 0 0)))) = Inr (1 / 4)
   \<and> random_cache (snd (random example_lib (Some ''a'') (snd (random example_lib None (create 0 0))))) (Some ''a'') = Some 1"
proof -
  have wf0: "cache_wf (create 0 0 :: nat world)"
    by (rule cache_wf_create)
  have c0: "random_cache (create 0 0 :: nat world) None = None"
    by (simp add: create_def)
  obtain res1 w1 where r1: "random example_lib None (create 0 0) = (res1, w1)"
    by (cases "random example_lib None (create 0 0)")
  have f1: "cache_wf w1 \<and> res1 = Inr (1 / 2) \<and> fresh (prng_store w1) = 1
            \<and> random_cache w1 = [None \<mapsto> 0] \<and> cells (prng_store w1) = [0 \<mapsto> 1]"
    using random_one_generator_per_seed [OF wf0, of example_lib None]
    by (simp add: r1 c0) (simp add: create_def empty_store_def example_lib_def)
  obtain res2 w2 where r2: "random example_lib None w1 = (res2, w2)"
    by (cases "random example_lib None w1")
  have f2: "res2 = Inr (1 / 3) \<and> fresh (prng_store w2) = 1"
    using random_one_generator_per_seed [of w1 example_lib None] f1
    by (simp add: r2) (simp add: example_lib_def)
  obtain res3 w3 where r3: "random example_lib (Some ''a'') w1 = (res3, w3)"
    by (cases "random example_lib (Some ''a'') w1")
  have f3: "res3 = Inr (1 / 4) \<and> random_cache w3 (Some ''a'') = Some 1"
    using random_one_generator_per_seed [of w1 example_lib "Some ''a''"] f1
    by (simp add: r3) (simp add: example_lib_def)
  show ?thesis
    using wf0 f1 f2 f3 by (simp add: r1 r2 r3)
qed

subsection \<open>The two outcomes of \<open>add\<close>\<close>

text \<open>The resolved id: the one given, or a string made from an unseeded draw.\<close>

lemma resolve_id_given: "resolve_id L (Some s) w = (Inr s, w)"
  by (simp add: resolve_id_def)

lemma resolve_id_default:
  assumes "cache_wf w"
  shows "\<exists>v w1. random L None w = (Inr v, w1)
                \<and> resolve_id L None w = (Inr (number_to_string L v), w1)
                \<and> physics w1 = physics w \<and> box_store w1 = box_store w \<and> cache_wf w1"
proof (cases "random_cache w None")
  case None
  show ?thesis
    using cache_wf_random[OF assms, of L None]
    by (simp add: resolve_id_def random_new[OF None])
next
  case (Some r)
  obtain g where g: "cells (prng_store w) r = Some g"
    using cache_wf_cell[OF assms Some] .
  show ?thesis
    using cache_wf_random[OF assms, of L None]
    by (simp add: resolve_id_def random_cached[OF Some g])
qed

lemma resolve_id_total:
  assumes "cache_wf w0"
  shows "\<exists>i w. resolve_id L oi w0 = (Inr i, w)
               \<and> (case oi of
                     Some s \<Rightarrow> i = s \<and> w = w0
                   | None \<Rightarrow> \<exists>v. random L None w0 = (Inr v, w) \<and> i = number_to_string L v)"
proof (cases oi)
  case None
  then show ?thesis
    using resolve_id_default[OF assms, of L] by auto
next
  case (Some s)
  then show ?thesis by (simp add: resolve_id_given)
qed

text \<open>
  When the \<^verbatim>\<open>in\<close> test fails to find the resolved id, \<open>add\<close> allocates the box,
  stores its reference under the id and returns the reference; otherwise it throws and
  leaves the state as the resolution of the id left it.
\<close>

lemma add_accepted:
  assumes "resolve_id L (arg_id a) w0 = (Inr i, w)" and "\<not> js_in i (boxes (physics w))"
  shows "add L a w0 =
           (Inr (fresh (box_store w)),
            w\<lparr>box_store :=
                 \<lparr>cells = (cells (box_store w))(fresh (box_store w) \<mapsto>
                            \<lparr>box_id = i, box_x = default_to 0 (arg_x a), box_y = default_to 0 (arg_y a),
                             box_w = default_to 1 (arg_w a), box_h = default_to 1 (arg_h a),
                             box_kind = default_to solid (arg_kind a)\<rparr>),
                  fresh = Suc (fresh (box_store w))\<rparr>,
               physics := (physics w)\<lparr>boxes := (boxes (physics w))(i \<mapsto> fresh (box_store w))\<rparr>\<rparr>)"
  using assms by (simp add: add_def assert_def alloc_def Let_def)

lemma add_rejected:
  assumes "resolve_id L (arg_id a) w0 = (Inr i, w)" and "js_in i (boxes (physics w))"
  shows "add L a w0 = (Inl (Error (''Assertion failed: Box@'' @ i @ '' already exists'')), w)"
  using assms by (simp add: add_def assert_def Let_def)

text \<open>Evaluation of the example states.\<close>

lemma not_in_empty:
  "\<not> js_in ''a'' (Map.empty :: string \<rightharpoonup> ref)"
  "\<not> js_in ''b'' (Map.empty :: string \<rightharpoonup> ref)"
  "\<not> js_in ''0.5'' (Map.empty :: string \<rightharpoonup> ref)"
  by (simp_all add: js_in_def object_prototype_keys_def)

lemma two_boxes_full:
  assumes "\<not> js_in i (Map.empty :: string \<rightharpoonup> ref)"
    and "\<not> js_in j (Map.empty :: string \<rightharpoonup> ref)" and "i \<noteq> j"
  shows "two_boxes (full_arg i x1 y1 w1 h1 k1) (full_arg j x2 y2 w2 h2 k2) =
           \<lparr>physics = \<lparr>stepMs = js_div 1000 60, startTime = 0, lastTime = 0, boxes = [i \<mapsto> 0, j \<mapsto> 1]\<rparr>,
            box_store =
              \<lparr>cells = [0 \<mapsto> \<lparr>box_id = i, box_x = x1, box_y = y1, box_w = w1, box_h = h1, box_kind = k1\<rparr>,
                        1 \<mapsto> \<lparr>box_id = j, box_x = x2, box_y = y2, box_w = w2, box_h = h2, box_kind = k2\<rparr>],
               fresh = 2\<rparr>,
            prng_store = empty_store, random_cache = Map.empty\<rparr>"
proof -
  let ?w0 = "create 0 0 :: nat world"
  let ?a = "full_arg i x1 y1 w1 h1 k1"
  let ?b = "full_arg j x2 y2 w2 h2 k2"
  have r1: "resolve_id example_lib (arg_id ?a) ?w0 = (Inr i, ?w0)"
    by (simp add: full_arg_def resolve_id_given)
  have j1: "\<not> js_in i (boxes (physics ?w0))"
    using assms(1) by (simp add: create_def)
  note a1 = add_accepted[OF r1 j1]
  let ?w1 = "snd (add example_lib ?a ?w0)"
  have r2: "resolve_id example_lib (arg_id ?b) ?w1 = (Inr j, ?w1)"
    by (simp add: full_arg_def resolve_id_given)
  have j2: "\<not> js_in j (boxes (physics ?w1))"
    unfolding a1 using assms by (simp add: create_def js_in_def)
  note a2 = add_accepted[OF r2 j2]
  show ?thesis
    apply (simp only: two_boxes_def a2)
    apply (simp only: a1)
    by (simp add: create_def empty_store_def full_arg_def default_to_def numeral_2_eq_2)
qed

subsection \<open>C3: a fresh id that the registry object inherits\<close>

text \<open>
  C3 says that a call whose resolved id is fresh succeeds. The code tests
  \<^verbatim>\<open>id in this.boxes\<close> on an object literal, which also finds the names inherited
  from \<^verbatim>\<open>Object.prototype\<close>: in a fresh session, whose registry has no entry,
  \<^verbatim>\<open>add({ id: 'toString', x: 0, y: 0, w: 1, h: 1, kind: 'solid' })\<close> throws
  \<^verbatim>\<open>Assertion failed: Box@toString already exists\<close>, and the state is unchanged.
\<close>

theorem add_rejects_inherited_name:
  fixes L :: "'g lib"
  shows "add L (full_arg ''toString'' 0 0 1 1 solid) (create now1 now2)
     = (Inl (Error ''Assertion failed: Box@toString already exists''), create now1 now2)
         \<and> boxes (physics (create now1 now2 :: 'g world)) ''toString'' = None"
proof -
  have r: "resolve_id L (arg_id (full_arg ''toString'' 0 0 1 1 solid)) (create now1 now2 :: 'g world)
             = (Inr ''toString'', create now1 now2)"
    by (simp add: full_arg_def resolve_id_given)
  have j: "js_in ''toString'' (boxes (physics (create now1 now2 :: 'g world)))"
    by (simp add: js_in_def object_prototype_keys_def)
  show ?thesis
    using add_rejected[OF r j] by (simp add: create_def)
qed

subsection \<open>C8: defaults, storage and the shared box object\<close>

text \<open>
  C8 says that for every partial box argument \<open>add\<close> stores the box under its id and
  returns the stored object. For an id that the registry object inherits from
  \<^verbatim>\<open>Object.prototype\<close> the code does neither: in a fresh session
  \<^verbatim>\<open>add({ id: 'constructor' })\<close> throws
  \<^verbatim>\<open>Assertion failed: Box@constructor already exists\<close>, returns no box, and the
  registry has no entry for the id afterwards. This is the defect shown under C3.
\<close>

theorem add_inherited_name_not_stored:
  fixes L :: "'g lib"
  shows "add L (empty_arg\<lparr>arg_id := Some ''constructor''\<rparr>) (create now1 now2)
           = (Inl (Error ''Assertion failed: Box@constructor already exists''), create now1 now2)
         \<and> registry_get ''constructor''
               (snd (add L (empty_arg\<lparr>arg_id := Some ''constructor''\<rparr>) (create now1 now2))) = None"
proof -
  let ?a = "empty_arg\<lparr>arg_id := Some ''constructor''\<rparr>"
  have r: "resolve_id L (arg_id ?a) (create now1 now2 :: 'g world)
             = (Inr ''constructor'', create now1 now2)"
    by (simp add: resolve_id_given)
  have j: "js_in ''constructor'' (boxes (physics (create now1 now2 :: 'g world)))"
    by (simp add: js_in_def object_prototype_keys_def)
  show ?thesis
    unfolding add_rejected[OF r j] by (simp add: registry_get_def create_def)
qed

text \<open>
  What \<open>add\<close> does on the other ids: in a state that satisfies the cache invariant,
  the id of a call of \<open>add\<close> resolves to the given id, or, when it is omitted, to the string of a
  draw from the unseeded generator. When the assertion passes (the \<^verbatim>\<open>in\<close> test does
  not find the id), \<open>add\<close> returns a reference \<open>r\<close> to a new box object whose omitted
  fields hold the defaults \<open>x = 0\<close>, \<open>y = 0\<close>, \<open>w = 1\<close>, \<open>h = 1\<close>, \<open>kind = solid\<close>;
  the registry maps the id to the same reference \<open>r\<close> and is otherwise unchanged. So
  the registry and the caller see one object: a field assignment \<open>upd\<close> through the
  returned reference is what a read through the registry gives, and an assignment
  through the registry is what a read through the returned reference gives.
\<close>

theorem add_defaults_and_shared_box:
  assumes "cache_wf w0"
  shows "\<exists>i w. resolve_id L (arg_id a) w0 = (Inr i, w)
           \<and> (case arg_id a of
                 Some s \<Rightarrow> i = s \<and> w = w0
               | None \<Rightarrow> \<exists>v. random L None w0 = (Inr v, w) \<and> i = number_to_string L v)
           \<and> (\<not> js_in i (boxes (physics w)) \<longrightarrow>
                (\<exists>r w' box. add L a w0 = (Inr r, w')
                    \<and> box = \<lparr>box_id = i,
                              box_x = (case arg_x a of None \<Rightarrow> 0 | Some v \<Rightarrow> v),
                              box_y = (case arg_y a of None \<Rightarrow> 0 | Some v \<Rightarrow> v),
                              box_w = (case arg_w a of None \<Rightarrow> 1 | Some v \<Rightarrow> v),
                              box_h = (case arg_h a of None \<Rightarrow> 1 | Some v \<Rightarrow> v),
                              box_kind = (case arg_kind a of None \<Rightarrow> solid | Some k \<Rightarrow> k)\<rparr>
                    \<and> r = fresh (box_store w)
                    \<and> deref r w' = Some box
                    \<and> physics w' = (physics w)\<lparr>boxes := (boxes (physics w))(i \<mapsto> r)\<rparr>
                    \<and> registry_get i w' = Some box
                    \<and> registry_get i (assign r upd w') = Some (upd box)
                    \<and> deref r (registry_assign i upd w') = Some (upd box)))"
proof -
  obtain i w where r: "resolve_id L (arg_id a) w0 = (Inr i, w)"
    and c: "case arg_id a of
              Some s \<Rightarrow> i = s \<and> w = w0
            | None \<Rightarrow> \<exists>v. random L None w0 = (Inr v, w) \<and> i = number_to_string L v"
    using resolve_id_total[OF assms, of L "arg_id a"] by blast
  show ?thesis
  proof (intro exI[of _ i] exI[of _ w] conjI impI)
    show "resolve_id L (arg_id a) w0 = (Inr i, w)"
      by (rule r)
  next
    show "case arg_id a of
            Some s \<Rightarrow> i = s \<and> w = w0
          | None \<Rightarrow> \<exists>v. random L None w0 = (Inr v, w) \<and> i = number_to_string L v"
      by (rule c)
  next
    assume j: "\<not> js_in i (boxes (physics w))"
    show "\<exists>r w' box. add L a w0 = (Inr r, w')
            \<and> box = \<lparr>box_id = i,
                      box_x = (case arg_x a of None \<Rightarrow> 0 | Some v \<Rightarrow> v),
                      box_y = (case arg_y a of None \<Rightarrow> 0 | Some v \<Rightarrow> v),
                      box_w = (case arg_w a of None \<Rightarrow> 1 | Some v \<Rightarrow> v),
                      box_h = (case arg_h a of None \<Rightarrow> 1 | Some v \<Rightarrow> v),
                      box_kind = (case arg_kind a of None \<Rightarrow> solid | Some k \<Rightarrow> k)\<rparr>
            \<and> r = fresh (box_store w)
            \<and> deref r w' = Some box
            \<and> physics w' = (physics w)\<lparr>boxes := (boxes (physics w))(i \<mapsto> r)\<rparr>
            \<and> registry_get i w' = Some box
            \<and> registry_get i (assign r upd w') = Some (upd box)
            \<and> deref r (registry_assign i upd w') = Some (upd box)"
      unfolding add_accepted[OF r j]
      by (simp add: registry_get_def registry_assign_def assign_def deref_def default_to_def)
  qed
qed

text \<open>
  Witness: \<^verbatim>\<open>add({})\<close> in a fresh session. The unseeded generator draws
  \<open>1/2\<close>, the id is \<open>''0.5''\<close>, the box gets the defaults and the address \<open>0\<close>, and
  after \<^verbatim>\<open>box.x = 7\<close> through the returned reference the registry reads \<open>x = 7\<close>.
\<close>

theorem add_defaults_and_shared_box_witness:
  "cache_wf (create 0 0 :: nat world)
   \<and> resolve_id example_lib (arg_id empty_arg) (create 0 0)
       = (Inr ''0.5'', snd (random example_lib None (create 0 0)))
   \<and> \<not> js_in ''0.5'' (boxes (physics (snd (random example_lib None (create 0 0)))))
   \<and> fst (add example_lib empty_arg (create 0 0)) = Inr 0
   \<and> registry_get ''0.5'' (snd (add example_lib empty_arg (create 0 0)))
       = Some \<lparr>box_id = ''0.5'', box_x = 0, box_y = 0, box_w = 1, box_h = 1, box_kind = solid\<rparr>
   \<and> registry_get ''0.5'' (assign 0 (\<lambda>b. b\<lparr>box_x := 7\<rparr>) (snd (add example_lib empty_arg (create 0 0))))
       = Some \<lparr>box_id = ''0.5'', box_x = 7, box_y = 0, box_w = 1, box_h = 1, box_kind = solid\<rparr>"
proof -
  let ?w0 = "create 0 0 :: nat world"
  have wf0: "cache_wf ?w0"
    by (rule cache_wf_create)
  have c0: "random_cache ?w0 None = None"
    by (simp add: create_def)
  have rnd: "random example_lib None ?w0 = (Inr (1 / 2), snd (random example_lib None ?w0))"
    by (simp add: random_new[OF c0]) (simp add: example_lib_def)
  have res: "resolve_id example_lib (arg_id empty_arg) ?w0
               = (Inr ''0.5'', snd (random example_lib None ?w0))"
    by (subst resolve_id_def, subst rnd) (simp add: empty_arg_def example_lib_def)
  have ph: "physics (snd (random example_lib None ?w0)) = physics ?w0"
    "box_store (snd (random example_lib None ?w0)) = box_store ?w0"
    by (simp_all add: random_new[OF c0])
  have j: "\<not> js_in ''0.5'' (boxes (physics (snd (random example_lib None ?w0))))"
    unfolding ph using not_in_empty(3) by (simp add: create_def)
  obtain r w' where
    a: "add example_lib empty_arg ?w0 = (Inr r, w')"
    and f: "r = fresh (box_store (snd (random example_lib None ?w0)))"
    and g: "registry_get ''0.5'' w'
             = Some \<lparr>box_id = ''0.5'', box_x = 0, box_y = 0, box_w = 1, box_h = 1, box_kind = solid\<rparr>"
    and m: "registry_get ''0.5'' (assign r (\<lambda>b. b\<lparr>box_x := 7\<rparr>) w')
             = Some ((\<lambda>b. b\<lparr>box_x := 7\<rparr>)
                 \<lparr>box_id = ''0.5'', box_x = 0, box_y = 0, box_w = 1, box_h = 1, box_kind = solid\<rparr>)"
    using add_defaults_and_shared_box [OF wf0, of example_lib empty_arg "\<lambda>b. b\<lparr>box_x := 7\<rparr>"] j
    by (simp add: res) (auto simp: empty_arg_def)
  have r0: "r = 0"
    using f unfolding ph by (simp add: create_def empty_store_def)
  show ?thesis
    using wf0 res j g m by (simp add: a r0)
qed

subsection \<open>C5: box dimensions are not checked\<close>

text \<open>
  C5, as it is written, says that \<open>add\<close> fails on a box whose width or height is not
  positive. \<open>add\<close> asserts nothing about the dimensions: in a fresh session
  \<^verbatim>\<open>add({ id: 'a', x: 0, y: 0, w: 0, h: -1, kind: 'solid' })\<close> returns the box and the
  registry holds it with \<open>w = 0\<close> and \<open>h = -1\<close>.
\<close>

theorem add_dimensions_counterexample:
  "fst (add example_lib (full_arg ''a'' 0 0 0 (- 1) solid) (create 0 0)) = Inr 0
   \<and> registry_get ''a'' (snd (add example_lib (full_arg ''a'' 0 0 0 (- 1) solid) (create 0 0)))
       = Some \<lparr>box_id = ''a'', box_x = 0, box_y = 0, box_w = 0, box_h = - 1, box_kind = solid\<rparr>"
proof -
  let ?w0 = "create 0 0 :: nat world"
  let ?a = "full_arg ''a'' 0 0 0 (- 1) solid"
  have r1: "resolve_id example_lib (arg_id ?a) ?w0 = (Inr ''a'', ?w0)"
    by (simp add: full_arg_def resolve_id_given)
  have j1: "\<not> js_in ''a'' (boxes (physics ?w0))"
    using not_in_empty(1) by (simp add: create_def)
  show ?thesis
    unfolding add_accepted[OF r1 j1]
    by (simp add: registry_get_def deref_def create_def empty_store_def full_arg_def default_to_def)
qed

text \<open>
  C5, amended: \<open>add\<close> does not look at the dimensions. In a state that satisfies the
  cache invariant the id resolves, and when the assertion on the id passes, \<open>add\<close>
  succeeds and stores the box with the width and height it was given (\<open>1\<close> where
  omitted), also when they are zero or negative. \<open>step\<close> returns normally on the
  resulting state, for every callback, and leaves it as it is.
\<close>

theorem add_stores_any_dimensions:
  assumes "cache_wf w0"
  shows "\<exists>i w. resolve_id L (arg_id a) w0 = (Inr i, w)
           \<and> (\<not> js_in i (boxes (physics w)) \<longrightarrow>
                (\<exists>r w' b. add L a w0 = (Inr r, w')
                    \<and> registry_get i w' = Some b
                    \<and> box_w b = (case arg_w a of None \<Rightarrow> 1 | Some v \<Rightarrow> v)
                    \<and> box_h b = (case arg_h a of None \<Rightarrow> 1 | Some v \<Rightarrow> v)
                    \<and> step cb (w', ob) = (w', ob)))"
proof -
  obtain i w where r: "resolve_id L (arg_id a) w0 = (Inr i, w)"
    using resolve_id_total[OF assms, of L "arg_id a"] by blast
  show ?thesis
  proof (intro exI[of _ i] exI[of _ w] conjI impI)
    show "resolve_id L (arg_id a) w0 = (Inr i, w)"
      by (rule r)
  next
    assume j: "\<not> js_in i (boxes (physics w))"
    show "\<exists>r w' b. add L a w0 = (Inr r, w')
            \<and> registry_get i w' = Some b
            \<and> box_w b = (case arg_w a of None \<Rightarrow> 1 | Some v \<Rightarrow> v)
            \<and> box_h b = (case arg_h a of None \<Rightarrow> 1 | Some v \<Rightarrow> v)
            \<and> step cb (w', ob) = (w', ob)"
      unfolding add_accepted[OF r j]
      by (simp add: registry_get_def deref_def default_to_def step_def)
  qed
qed

text \<open>Witness for C5: a platform of width \<open>-2\<close> and height \<open>0\<close> in a fresh session.\<close>

theorem add_stores_any_dimensions_witness:
  "cache_wf (create 0 0 :: nat world)
   \<and> \<not> js_in ''b'' (boxes (physics (create 0 0 :: nat world)))
   \<and> (\<exists>r w' b. add example_lib (full_arg ''b'' 3 4 (- 2) 0 platform) (create 0 0) = (Inr r, w')
         \<and> registry_get ''b'' w' = Some b \<and> box_w b = - 2 \<and> box_h b = 0
         \<and> step None (w', ()) = (w', ()))"
proof -
  have wf0: "cache_wf (create 0 0 :: nat world)"
    by (rule cache_wf_create)
  have j: "\<not> js_in ''b'' (boxes (physics (create 0 0 :: nat world)))"
    using not_in_empty(2) by (simp add: create_def)
  show ?thesis
    using add_stores_any_dimensions [OF wf0, of example_lib "full_arg ''b'' 3 4 (- 2) 0 platform" None "()"] wf0 j
    by (simp add: full_arg_def resolve_id_given)
qed

subsection \<open>C2: \<open>step\<close> and the collision callback\<close>

text \<open>
  C2, as it is written, says that \<open>step\<close> calls the callback once for each pair of
  overlapping boxes. The body of \<open>step\<close> is empty: with the boxes \<open>(0, 0, 1, 1)\<close> and
  \<open>(0.5, 0, 1, 1)\<close> registered, which overlap, the recording callback is not called.
\<close>

theorem step_reports_counterexample:
  "registry_get ''a'' (two_boxes (full_arg ''a'' 0 0 1 1 solid) (full_arg ''b'' 0.5 0 1 1 solid))
     = Some \<lparr>box_id = ''a'', box_x = 0, box_y = 0, box_w = 1, box_h = 1, box_kind = solid\<rparr>
   \<and> registry_get ''b'' (two_boxes (full_arg ''a'' 0 0 1 1 solid) (full_arg ''b'' 0.5 0 1 1 solid))
     = Some \<lparr>box_id = ''b'', box_x = 0.5, box_y = 0, box_w = 1, box_h = 1, box_kind = solid\<rparr>
   \<and> spec_overlap \<lparr>box_id = ''a'', box_x = 0, box_y = 0, box_w = 1, box_h = 1, box_kind = solid\<rparr>
                    \<lparr>box_id = ''b'', box_x = 0.5, box_y = 0, box_w = 1, box_h = 1, box_kind = solid\<rparr>
   \<and> snd (step (Some log_collision)
             (two_boxes (full_arg ''a'' 0 0 1 1 solid) (full_arg ''b'' 0.5 0 1 1 solid), [])) = []"
  by (simp add: two_boxes_full not_in_empty registry_get_def deref_def spec_overlap_def step_def)

text \<open>
  C2, amended: for every state and every callback, a call of \<open>step\<close> never invokes the
  callback and changes nothing: the recording callback has recorded no pair afterwards
  (so no pair is reported more than once). In particular neither the boxes
  \<open>(0, 0, 1, 1)\<close> and \<open>(0.5, 0, 1, 1)\<close> nor the boxes \<open>(0, 0, 1, 1)\<close> and
  \<open>(2, 0, 1, 1)\<close> are reported.
\<close>

theorem step_reports_nothing:
  "step (Some cb) (w, ob) = (w, ob)
   \<and> snd (step (Some log_collision) (w, calls)) = calls
   \<and> count_list (snd (step (Some log_collision) (w, []))) pair = 0
   \<and> snd (step (Some log_collision)
             (two_boxes (full_arg ''a'' 0 0 1 1 solid) (full_arg ''b'' 0.5 0 1 1 solid), [])) = []
   \<and> snd (step (Some log_collision)
             (two_boxes (full_arg ''a'' 0 0 1 1 solid) (full_arg ''b'' 2 0 1 1 solid), [])) = []"
  by (simp add: step_def)

subsection \<open>C4: a sensor that overlaps a solid box\<close>

text \<open>
  C4, as it is written, says that \<open>step\<close> calls the callback on a sensor and a solid
  box that overlap. With the sensor \<open>(0, 0, 1, 1)\<close> and the solid box
  \<open>(0.5, 0.5, 2, 2)\<close> registered, which overlap, the recording callback has recorded
  nothing after \<open>step\<close>.
\<close>

theorem sensor_counterexample:
  "registry_get ''a'' (two_boxes (full_arg ''a'' 0 0 1 1 sensor) (full_arg ''b'' 0.5 0.5 2 2 solid))
     = Some \<lparr>box_id = ''a'', box_x = 0, box_y = 0, box_w = 1, box_h = 1, box_kind = sensor\<rparr>
   \<and> registry_get ''b'' (two_boxes (full_arg ''a'' 0 0 1 1 sensor) (full_arg ''b'' 0.5 0.5 2 2 solid))
     = Some \<lparr>box_id = ''b'', box_x = 0.5, box_y = 0.5, box_w = 2, box_h = 2, box_kind = solid\<rparr>
   \<and> spec_overlap \<lparr>box_id = ''a'', box_x = 0, box_y = 0, box_w = 1, box_h = 1, box_kind = sensor\<rparr>
                    \<lparr>box_id = ''b'', box_x = 0.5, box_y = 0.5, box_w = 2, box_h = 2, box_kind = solid\<rparr>
   \<and> set (snd (step (Some log_collision)
                  (two_boxes (full_arg ''a'' 0 0 1 1 sensor) (full_arg ''b'' 0.5 0.5 2 2 solid), []))) = {}"
  by (simp add: two_boxes_full not_in_empty registry_get_def deref_def spec_overlap_def step_def)

text \<open>
  C4, amended: for every state and every callback, \<open>step\<close> does not invoke the
  callback (the state the callback has captured is unchanged), and after \<open>step\<close>
  every box, read through a reference or through the registry, has the \<open>x\<close> and \<open>y\<close>
  it had before; this holds for a sensor that overlaps a solid box as for any other
  boxes.
\<close>

theorem step_keeps_positions:
  "snd (step (Some cb) (w, ob)) = ob
   \<and> (\<forall>r b. deref r w = Some b \<longrightarrow>
         (\<exists>b'. deref r (fst (step (Some cb) (w, ob))) = Some b'
               \<and> box_x b' = box_x b \<and> box_y b' = box_y b))
   \<and> (\<forall>i b. registry_get i w = Some b \<longrightarrow>
         (\<exists>b'. registry_get i (fst (step (Some cb) (w, ob))) = Some b'
               \<and> box_x b' = box_x b \<and> box_y b' = box_y b))"
  by (simp add: step_def)

text \<open>Witness for C4: the sensor of the example above stays at \<open>(0, 0)\<close>.\<close>

theorem step_keeps_positions_witness:
  "registry_get ''a'' (two_boxes (full_arg ''a'' 0 0 1 1 sensor) (full_arg ''b'' 0.5 0.5 2 2 solid))
     = Some \<lparr>box_id = ''a'', box_x = 0, box_y = 0, box_w = 1, box_h = 1, box_kind = sensor\<rparr>
   \<and> (\<exists>b'. registry_get ''a'' (fst (step (Some log_collision)
               (two_boxes (full_arg ''a'' 0 0 1 1 sensor) (full_arg ''b'' 0.5 0.5 2 2 solid), []))) = Some b'
            \<and> box_x b' = 0 \<and> box_y b' = 0)"
proof -
  let ?w = "two_boxes (full_arg ''a'' 0 0 1 1 sensor) (full_arg ''b'' 0.5 0.5 2 2 solid)"
  have a: "registry_get ''a'' ?w
             = Some \<lparr>box_id = ''a'', box_x = 0, box_y = 0, box_w = 1, box_h = 1, box_kind = sensor\<rparr>"
    by (simp add: two_boxes_full not_in_empty registry_get_def deref_def)
  show ?thesis
    using step_keeps_positions [of log_collision ?w "[]"] a by fastforce
qed

subsection \<open>Uniqueness of registered ids\<close>

text \<open>Resolving the id touches neither the registry nor the box objects.\<close>

lemma resolve_id_frame:
  assumes "cache_wf w0" and "resolve_id L oi w0 = (Inr i, w)"
  shows "physics w = physics w0 \<and> box_store w = box_store w0 \<and> cache_wf w"
proof (cases oi)
  case None
  then show ?thesis
    using resolve_id_default[OF assms(1), of L] assms(2) by auto
next
  case (Some s)
  then show ?thesis
    using assms by (simp add: resolve_id_given)
qed

text \<open>
  The part of the uniqueness check that holds: in a state that satisfies the cache
  invariant, a call of \<open>add\<close> whose resolved id is already a key of the registry throws
  \<^verbatim>\<open>Assertion failed: Box@<id> already exists\<close> and leaves the registry and the box
  objects unchanged; a call whose resolved id is neither a key of the registry nor a
  name inherited from \<^verbatim>\<open>Object.prototype\<close> succeeds and adds exactly that key.
\<close>

theorem add_checks_registered_ids:
  assumes "cache_wf w0"
  shows "\<exists>i w. resolve_id L (arg_id a) w0 = (Inr i, w)
           \<and> physics w = physics w0 \<and> box_store w = box_store w0
           \<and> (i \<in> dom (boxes (physics w0)) \<longrightarrow>
                 add L a w0 = (Inl (Error (''Assertion failed: Box@'' @ i @ '' already exists'')), w))
           \<and> (i \<notin> dom (boxes (physics w0)) \<and> i \<notin> set object_prototype_keys \<longrightarrow>
                 (\<exists>r w'. add L a w0 = (Inr r, w')
                     \<and> dom (boxes (physics w')) = insert i (dom (boxes (physics w0)))))"
proof -
  obtain i w where r: "resolve_id L (arg_id a) w0 = (Inr i, w)"
    using resolve_id_total[OF assms, of L "arg_id a"] by blast
  have fr: "physics w = physics w0" "box_store w = box_store w0"
    using resolve_id_frame[OF assms r] by simp_all
  show ?thesis
  proof (intro exI[of _ i] exI[of _ w] conjI impI)
    show "resolve_id L (arg_id a) w0 = (Inr i, w)" by (rule r)
    show "physics w = physics w0" by (rule fr)
    show "box_store w = box_store w0" by (rule fr)
  next
    assume "i \<in> dom (boxes (physics w0))"
    then have "js_in i (boxes (physics w))"
      by (simp add: js_in_def fr)
    then show "add L a w0 = (Inl (Error (''Assertion failed: Box@'' @ i @ '' already exists'')), w)"
      by (rule add_rejected[OF r])
  next
    assume "i \<notin> dom (boxes (physics w0)) \<and> i \<notin> set object_prototype_keys"
    then have j: "\<not> js_in i (boxes (physics w))"
      by (simp add: js_in_def fr)
    show "\<exists>r w'. add L a w0 = (Inr r, w')
            \<and> dom (boxes (physics w')) = insert i (dom (boxes (physics w0)))"
      unfolding add_accepted[OF r j] by (simp add: fr)
  qed
qed

text \<open>Witness: a second box with the id \<open>''a''\<close> is rejected.\<close>

theorem add_checks_registered_ids_witness:
  "cache_wf (snd (add example_lib (full_arg ''a'' 0 0 1 1 solid) (create 0 0)))
   \<and> ''a'' \<in> dom (boxes (physics (snd (add example_lib (full_arg ''a'' 0 0 1 1 solid) (create 0 0)))))
   \<and> add example_lib (full_arg ''a'' 5 5 2 2 sensor)
        (snd (add example_lib (full_arg ''a'' 0 0 1 1 solid) (create 0 0)))
       = (Inl (Error ''Assertion failed: Box@a already exists''),
          snd (add example_lib (full_arg ''a'' 0 0 1 1 solid) (create 0 0)))"
proof -
  let ?w0 = "create 0 0 :: nat world"
  let ?a = "full_arg ''a'' 0 0 1 1 solid"
  have r1: "resolve_id example_lib (arg_id ?a) ?w0 = (Inr ''a'', ?w0)"
    by (simp add: full_arg_def resolve_id_given)
  have j1: "\<not> js_in ''a'' (boxes (physics ?w0))"
    using not_in_empty(1) by (simp add: create_def)
  note a1 = add_accepted[OF r1 j1]
  let ?w1 = "snd (add example_lib ?a ?w0)"
  have wf1: "cache_wf ?w1"
    unfolding a1 using cache_wf_create[of 0 0] by (simp add: cache_wf_def)
  have d: "''a'' \<in> dom (boxes (physics ?w1))"
    unfolding a1 by simp
  show ?thesis
    using add_checks_registered_ids [OF wf1, of example_lib "full_arg ''a'' 5 5 2 2 sensor"] wf1 d
    by (simp add: full_arg_def resolve_id_given)
qed

end
